theory Spec2Isabelle
  imports Complex_Main "HOL-Library.Log_Nat"
begin

section \<open>The game controller of ceros-ski (src/Core/Game.ts)\<close>

text \<open>
  \<open>Game\<close> owns the session clock, the viewport, the score and the RUNNING/GAME_OVER
  state, and sequences the calls to its collaborators: the canvas, the image manager,
  the obstacle manager, the skier and the rhino. Only \<open>Game.ts\<close> is modelled; the
  collaborators (\<open>Canvas\<close>, \<open>ImageManager\<close>, \<open>ObstacleManager\<close>, \<open>Skier\<close>, \<open>Rhino\<close>, the
  constants of \<open>Constants.ts\<close>) are parameters, collected in the record \<open>env\<close>.

  \<^item> A JavaScript number is modelled as the real it denotes (infinities and NaN are
    not modelled). The viewport is calculated with the rounded operations of doubles
    (\<open>js_sub\<close>, \<open>js_div\<close>, \<open>js_add\<close> below). The score arithmetic is exact: the score is
    a multiple of \<open>0.5\<close>, which a double represents exactly up to \<open>2 ^ 52\<close>, and
    \<open>Math.max\<close> does not round. The coordinates of the texts are left unrounded; they
    are exact in doubles for an integral display size.
  \<^item> The collaborators are objects that hold references to each other (the skier is
    constructed with the obstacle manager and the canvas, the rhino is handed the skier).
    Their state is one store \<open>'w\<close>; the controller holds references into it, and every
    method of a collaborator is a function on the store.
  \<^item> Every call the controller makes on a collaborator is appended to \<open>trace\<close>, in the
    order of the calls, so that the order of updates and draws can be stated. So are
    \<open>Date.now()\<close>, \<open>document.addEventListener\<close> and \<open>event.preventDefault()\<close>.
  \<^item> \<open>load\<close>, which awaits the loading of the images before the first frame, is not
    modelled: no claim below depends on it.
\<close>

subsection \<open>Data\<close>

datatype GameState = RUNNING | GAME_OVER

text \<open>
  \<open>Position\<close> and \<open>Rect\<close> of \<open>Core/Utils\<close>: \<open>{x, y}\<close> (the fields are \<open>pos_x\<close> and
  \<open>pos_y\<close> here) and \<open>new Rect(left, top, right, bottom)\<close>.
\<close>

record Position =
  pos_x :: real
  pos_y :: real

record Rect =
  left :: real
  top :: real
  right :: real
  bottom :: real

type_synonym ref = nat

datatype event =
    DateNow real
  | NewCanvas string real real
  | ClearCanvas ref
  | SetDrawOffset ref real real
  | DrawText ref string real real string string
  | NewImageManager
  | NewObstacleManager ref ref
  | PlaceInitialObstacles ref
  | PlaceNewObstacle ref Rect Rect
  | DrawObstacles ref
  | NewSkier real real ref ref ref
  | SkierGetPosition ref
  | SkierUpdate ref real
  | SkierDraw ref
  | SkierHandleInput ref string
  | NewRhino real real ref ref
  | RhinoUpdate ref real ref
  | RhinoDraw ref
  | AddEventListener string
  | PreventDefault

text \<open>
  The collaborators and constants that \<open>Game.ts\<close> imports. \<open>'w\<close> is the store of the
  collaborators' objects, \<open>'s\<close> the type of \<open>Skier.state\<close>. A constructor returns the
  reference of the new object.
\<close>

record ('w, 's) env =
  GAME_CANVAS :: string
  GAME_WIDTH :: real
  GAME_HEIGHT :: real
  STATE_DEAD :: 's
  Date_now :: "'w \<Rightarrow> real \<times> 'w"
  Canvas_new :: "string \<Rightarrow> real \<Rightarrow> real \<Rightarrow> 'w \<Rightarrow> ref \<times> 'w"
  Canvas_clearCanvas :: "ref \<Rightarrow> 'w \<Rightarrow> 'w"
  Canvas_setDrawOffset :: "ref \<Rightarrow> real \<Rightarrow> real \<Rightarrow> 'w \<Rightarrow> 'w"
  Canvas_drawText :: "ref \<Rightarrow> string \<Rightarrow> real \<Rightarrow> real \<Rightarrow> string \<Rightarrow> string \<Rightarrow> 'w \<Rightarrow> 'w"
  ImageManager_new :: "'w \<Rightarrow> ref \<times> 'w"
  ObstacleManager_new :: "ref \<Rightarrow> ref \<Rightarrow> 'w \<Rightarrow> ref \<times> 'w"
  ObstacleManager_placeInitialObstacles :: "ref \<Rightarrow> 'w \<Rightarrow> 'w"
  ObstacleManager_placeNewObstacle :: "ref \<Rightarrow> Rect \<Rightarrow> Rect \<Rightarrow> 'w \<Rightarrow> 'w"
  ObstacleManager_drawObstacles :: "ref \<Rightarrow> 'w \<Rightarrow> 'w"
  Skier_new :: "real \<Rightarrow> real \<Rightarrow> ref \<Rightarrow> ref \<Rightarrow> ref \<Rightarrow> 'w \<Rightarrow> ref \<times> 'w"
  Skier_getPosition :: "ref \<Rightarrow> 'w \<Rightarrow> Position"
  Skier_state :: "ref \<Rightarrow> 'w \<Rightarrow> 's"
  Skier_update :: "ref \<Rightarrow> real \<Rightarrow> 'w \<Rightarrow> 'w"
  Skier_draw :: "ref \<Rightarrow> 'w \<Rightarrow> 'w"
  Skier_handleInput :: "ref \<Rightarrow> string \<Rightarrow> 'w \<Rightarrow> bool \<times> 'w"
  Rhino_new :: "real \<Rightarrow> real \<Rightarrow> ref \<Rightarrow> ref \<Rightarrow> 'w \<Rightarrow> ref \<times> 'w"
  Rhino_update :: "ref \<Rightarrow> real \<Rightarrow> ref \<Rightarrow> 'w \<Rightarrow> 'w"
  Rhino_draw :: "ref \<Rightarrow> 'w \<Rightarrow> 'w"

text \<open>
  The fields of \<open>Game\<close>. \<open>imageManager\<close> is an option because \<open>init\<close> tests it
  (\<open>this.imageManager || new ImageManager()\<close>); the other object fields are declared
  with a definite-assignment assertion and are assigned by \<open>init\<close> before any read.
\<close>

record 'w Game =
  canvas :: ref
  gameWindow :: Rect
  gameTime :: real
  imageManager :: "ref option"
  obstacleManager :: ref
  skier :: ref
  rhino :: ref
  gameState :: GameState
  score :: real
  maxScore :: real
  world :: 'w
  trace :: "event list"

subsection \<open>JavaScript numbers\<close>

text \<open>
  The result of \<open>+\<close>, \<open>-\<close> and \<open>/\<close> on doubles is the exact result rounded to the
  nearest double, a tie going to the double with the even significand. Around \<open>v\<close> the
  doubles are the multiples of \<open>2 ^ q\<close>, where \<open>q\<close> is 52 below the binary exponent of
  \<open>v\<close> and at least \<open>-1074\<close> (the subnormal numbers). Overflow is not modelled: at and
  above \<open>2 ^ 1024\<close>, where JavaScript gives \<open>Infinity\<close>, \<open>to_double\<close> keeps rounding to 53
  bits.
\<close>

definition round_half_even :: "real \<Rightarrow> int" where
  "round_half_even v =
     (let f = \<lfloor>v\<rfloor>; d = v - of_int f
      in if d < 1 / 2 then f else if 1 / 2 < d then f + 1 else if even f then f else f + 1)"

definition spacing_exp :: "real \<Rightarrow> int" where
  "spacing_exp v = max (bitlen \<lfloor>\<bar>v\<bar> * 2 ^ 1074\<rfloor> - 53) 0 - 1074"

definition to_double :: "real \<Rightarrow> real" where
  "to_double v = of_int (round_half_even (v / 2 powi spacing_exp v)) * 2 powi spacing_exp v"

definition js_add :: "real \<Rightarrow> real \<Rightarrow> real" where
  "js_add a b = to_double (a + b)"

definition js_sub :: "real \<Rightarrow> real \<Rightarrow> real" where
  "js_sub a b = to_double (a - b)"

definition js_div :: "real \<Rightarrow> real \<Rightarrow> real" where
  "js_div a b = to_double (a / b)"

subsection \<open>Calls on collaborators\<close>

definition call :: "event \<Rightarrow> ('w \<Rightarrow> 'w) \<Rightarrow> 'w Game \<Rightarrow> 'w Game" where
  "call ev f g = g\<lparr>world := f (world g), trace := trace g @ [ev]\<rparr>"

subsection \<open>Number formatting of the score overlay\<close>

text \<open>
  The decimal digits JavaScript prints inside a template literal for an integer below
  \<open>10 ^ 21\<close> in absolute value (\<open>Math.floor\<close> of the scores).
\<close>

fun show_nat :: "nat \<Rightarrow> string" where
  "show_nat n =
     (if n < 10 then [''0123456789'' ! n]
      else show_nat (n div 10) @ [''0123456789'' ! (n mod 10)])"

declare show_nat.simps [simp del]

definition show_int :: "int \<Rightarrow> string" where
  "show_int i = (if i < 0 then ''-'' @ show_nat (nat (- i)) else show_nat (nat i))"

subsection \<open>The methods of Game\<close>

definition calculateGameWindow :: "('w, 's) env \<Rightarrow> 'w Game \<Rightarrow> 'w Game" where
  "calculateGameWindow E g =
     (let skierPosition = Skier_getPosition E (skier g) (world g);
          l = js_sub (pos_x skierPosition) (js_div (GAME_WIDTH E) 2);
          t = js_sub (pos_y skierPosition) (js_div (GAME_HEIGHT E) 2)
      in g\<lparr>gameWindow := \<lparr>left = l, top = t, right = js_add l (GAME_WIDTH E),
                              bottom = js_add t (GAME_HEIGHT E)\<rparr>,
           trace := trace g @ [SkierGetPosition (skier g)]\<rparr>)"

definition init :: "('w, 's) env \<Rightarrow> 'w Game \<Rightarrow> 'w Game" where
  "init E g =
     (let (cv, w1) = Canvas_new E (GAME_CANVAS E) (GAME_WIDTH E) (GAME_HEIGHT E) (world g);
          g1 = g\<lparr>canvas := cv, world := w1,
                 trace := trace g @ [NewCanvas (GAME_CANVAS E) (GAME_WIDTH E) (GAME_HEIGHT E)]\<rparr>;
          (im, g2) = (case imageManager g1 of
                        Some im \<Rightarrow> (im, g1)
                      | None \<Rightarrow>
                          (let (im, w2) = ImageManager_new E (world g1)
                           in (im, g1\<lparr>imageManager := Some im, world := w2,
                                      trace := trace g1 @ [NewImageManager]\<rparr>)));
          (om, w3) = ObstacleManager_new E im cv (world g2);
          g3 = g2\<lparr>obstacleManager := om, world := w3,
                  trace := trace g2 @ [NewObstacleManager im cv]\<rparr>;
          g4 = call (PlaceInitialObstacles om) (ObstacleManager_placeInitialObstacles E om) g3;
          (sk, w5) = Skier_new E 0 0 im om cv (world g4);
          g5 = g4\<lparr>skier := sk, world := w5, trace := trace g4 @ [NewSkier 0 0 im om cv]\<rparr>;
          (rh, w6) = Rhino_new E (- 500) (- 2000) im cv (world g5);
          g6 = g5\<lparr>rhino := rh, world := w6, trace := trace g5 @ [NewRhino (- 500) (- 2000) im cv]\<rparr>;
          g7 = calculateGameWindow E g6
      in g7\<lparr>gameState := RUNNING\<rparr>)"

definition setupInputHandling :: "'w Game \<Rightarrow> 'w Game" where
  "setupInputHandling g = g\<lparr>trace := trace g @ [AddEventListener ''keydown'']\<rparr>"

definition saveMaxScore :: "'w Game \<Rightarrow> 'w Game" where
  "saveMaxScore g = g\<lparr>maxScore := max (score g) (maxScore g)\<rparr>"

definition updateScore :: "'w Game \<Rightarrow> 'w Game" where
  "updateScore g = g\<lparr>score := score g + 0.5\<rparr>"

definition resetScore :: "'w Game \<Rightarrow> 'w Game" where
  "resetScore g = g\<lparr>score := 0\<rparr>"

definition updateGameWindow :: "('w, 's) env \<Rightarrow> 'w Game \<Rightarrow> 'w Game" where
  "updateGameWindow E g =
     (let (now, w1) = Date_now E (world g);
          g1 = g\<lparr>gameTime := now, world := w1, trace := trace g @ [DateNow now]\<rparr>;
          previousGameWindow = gameWindow g1;
          g2 = calculateGameWindow E g1;
          g3 = call (PlaceNewObstacle (obstacleManager g2) (gameWindow g2) previousGameWindow)
                 (ObstacleManager_placeNewObstacle E (obstacleManager g2) (gameWindow g2)
                    previousGameWindow) g2;
          g4 = call (SkierUpdate (skier g3) (gameTime g3))
                 (Skier_update E (skier g3) (gameTime g3)) g3;
          g5 = call (RhinoUpdate (rhino g4) (gameTime g4) (skier g4))
                 (Rhino_update E (rhino g4) (gameTime g4) (skier g4)) g4
      in if Skier_state E (skier g5) (world g5) = STATE_DEAD E
         then resetScore (saveMaxScore (g5\<lparr>gameState := GAME_OVER\<rparr>))
         else updateScore g5)"

definition drawScore :: "('w, 's) env \<Rightarrow> 'w Game \<Rightarrow> 'w Game" where
  "drawScore E g =
     (let padding = 30;
          maxScoreInteger = \<lfloor>maxScore g\<rfloor>;
          scoreInteger = \<lfloor>score g\<rfloor>;
          text = ''Max Score: '' @ show_int maxScoreInteger @ ''   Score: '' @ show_int scoreInteger
      in call (DrawText (canvas g) text (GAME_WIDTH E - padding - 270) padding ''20px Arial'' ''black'')
           (Canvas_drawText E (canvas g) text (GAME_WIDTH E - padding - 270) padding
              ''20px Arial'' ''black'') g)"

definition drawGameWindow :: "('w, 's) env \<Rightarrow> 'w Game \<Rightarrow> 'w Game" where
  "drawGameWindow E g =
     (let g1 = call (SetDrawOffset (canvas g) (left (gameWindow g)) (top (gameWindow g)))
                 (Canvas_setDrawOffset E (canvas g) (left (gameWindow g)) (top (gameWindow g))) g;
          g2 = call (SkierDraw (skier g1)) (Skier_draw E (skier g1)) g1;
          g3 = call (RhinoDraw (rhino g2)) (Rhino_draw E (rhino g2)) g2;
          g4 = call (DrawObstacles (obstacleManager g3))
                 (ObstacleManager_drawObstacles E (obstacleManager g3)) g3
      in drawScore E g4)"

definition drawGameOver :: "('w, 's) env \<Rightarrow> 'w Game \<Rightarrow> 'w Game" where
  "drawGameOver E g =
     (let g1 = call (DrawText (canvas g) ''Game Over!'' (GAME_WIDTH E / 2 - 100) (GAME_HEIGHT E / 2)
                       ''30px Roboto'' ''red'')
                 (Canvas_drawText E (canvas g) ''Game Over!'' (GAME_WIDTH E / 2 - 100)
                    (GAME_HEIGHT E / 2) ''30px Roboto'' ''red'') g
      in call (DrawText (canvas g1) ''Press Enter to restart'' (GAME_WIDTH E / 2 - 110)
                 (GAME_HEIGHT E / 2 + 40) ''20px Roboto'' ''green'')
           (Canvas_drawText E (canvas g1) ''Press Enter to restart'' (GAME_WIDTH E / 2 - 110)
              (GAME_HEIGHT E / 2 + 40) ''20px Roboto'' ''green'') g1)"

text \<open>
  One invocation of \<open>run\<close>, up to its last statement. That statement,
  \<open>requestAnimationFrame(this.run.bind(this))\<close>, makes the browser invoke \<open>run\<close> again at
  the next display refresh: it is the recursion of \<open>run\<close> below.
\<close>

definition run_frame :: "('w, 's) env \<Rightarrow> 'w Game \<Rightarrow> 'w Game" where
  "run_frame E g =
     (if gameState g = RUNNING
      then drawGameWindow E (updateGameWindow E (call (ClearCanvas (canvas g))
             (Canvas_clearCanvas E (canvas g)) g))
      else drawGameOver E g)"

text \<open>
  \<open>run\<close> never returns control for good: every invocation schedules the next one. The
  first argument bounds the number of display refreshes that are observed.
\<close>

fun run :: "('w, 's) env \<Rightarrow> nat \<Rightarrow> 'w Game \<Rightarrow> 'w Game" where
  "run E 0 g = g"
| "run E (Suc n) g = run E n (run_frame E g)"

definition restartGame :: "('w, 's) env \<Rightarrow> 'w Game \<Rightarrow> 'w Game" where
  "restartGame E g = (init E g)\<lparr>gameState := RUNNING\<rparr>"

definition handleKeyDown :: "('w, 's) env \<Rightarrow> string \<Rightarrow> 'w Game \<Rightarrow> 'w Game" where
  "handleKeyDown E key g =
     (if gameState g = GAME_OVER \<and> key = ''Enter''
      then (let g1 = restartGame E g in g1\<lparr>trace := trace g1 @ [PreventDefault]\<rparr>)
      else (let (handled, w1) = Skier_handleInput E (skier g) key (world g);
                g1 = g\<lparr>world := w1, trace := trace g @ [SkierHandleInput (skier g) key]\<rparr>
            in if handled then g1\<lparr>trace := trace g1 @ [PreventDefault]\<rparr> else g1))"

text \<open>
  \<open>new Game()\<close>: the field initialisers (\<open>gameTime = Date.now()\<close>, \<open>gameState = RUNNING\<close>,
  \<open>score = 0\<close>, \<open>maxScore = 0\<close>), then \<open>init\<close> and \<open>setupInputHandling\<close>. The fields that
  \<open>init\<close> assigns hold no object before it; \<open>blank\<close> gives them the reference \<open>0\<close> and
  the empty rectangle, and \<open>init_assigns\<close> below shows that \<open>init\<close> never reads them.
\<close>

definition blank :: "'w \<Rightarrow> 'w Game" where
  "blank w =
     \<lparr>canvas = 0, gameWindow = \<lparr>left = 0, top = 0, right = 0, bottom = 0\<rparr>, gameTime = 0,
      imageManager = None, obstacleManager = 0, skier = 0, rhino = 0, gameState = RUNNING,
      score = 0, maxScore = 0, world = w, trace = []\<rparr>"

definition Game_new :: "('w, 's) env \<Rightarrow> 'w \<Rightarrow> 'w Game" where
  "Game_new E w =
     (let (now, w1) = Date_now E w;
          g = (blank w1)\<lparr>gameTime := now, trace := [DateNow now]\<rparr>
      in setupInputHandling (init E g))"

subsection \<open>The browser's dispatch of the two callbacks\<close>

text \<open>
  Frames and key events reach the controller one at a time, each handled to completion
  before the next: a session is a list of inputs.
\<close>

datatype input = Frame | KeyDown string

fun step :: "('w, 's) env \<Rightarrow> 'w Game \<Rightarrow> input \<Rightarrow> 'w Game" where
  "step E g Frame = run_frame E g"
| "step E g (KeyDown key) = handleKeyDown E key g"

fun exec :: "('w, 's) env \<Rightarrow> 'w Game \<Rightarrow> input list \<Rightarrow> 'w Game" where
  "exec E g [] = g"
| "exec E g (i # ins) = exec E (step E g i) ins"

text \<open>All the states a session passes through, the first one included.\<close>

fun states :: "('w, 's) env \<Rightarrow> 'w Game \<Rightarrow> input list \<Rightarrow> 'w Game list" where
  "states E g [] = [g]"
| "states E g (i # ins) = g # states E (step E g i) ins"

definition reachable :: "('w, 's) env \<Rightarrow> 'w \<Rightarrow> 'w Game \<Rightarrow> bool" where
  "reachable E w g = (\<exists>ins. g = exec E (Game_new E w) ins)"

subsection \<open>Reading the trace\<close>

text \<open>The draws of entities and text among the calls, and the timestamps sampled.\<close>

fun is_draw :: "event \<Rightarrow> bool" where
  "is_draw (SkierDraw _) = True"
| "is_draw (RhinoDraw _) = True"
| "is_draw (DrawObstacles _) = True"
| "is_draw (DrawText _ _ _ _ _ _) = True"
| "is_draw _ = False"

fun clock_samples :: "event list \<Rightarrow> real list" where
  "clock_samples [] = []"
| "clock_samples (DateNow t # evs) = t # clock_samples evs"
| "clock_samples (_ # evs) = clock_samples evs"

subsection \<open>The skier's dead state\<close>

text \<open>
  Modelled from the spec: \<open>Skier\<close>, \<open>Canvas\<close>, \<open>Rhino\<close> and \<open>ObstacleManager\<close> are not
  under src/. The spec calls the skier's dead value terminal (sections 2 and 6): once the
  skier is dead, drawing does not change that.
\<close>

definition dead_is_terminal :: "('w, 's) env \<Rightarrow> bool" where
  "dead_is_terminal E =
     (\<forall>sk w. Skier_state E sk w = STATE_DEAD E \<longrightarrow>
        (\<forall>cv a b. Skier_state E sk (Canvas_setDrawOffset E cv a b w) = STATE_DEAD E) \<and>
        (\<forall>cv s a b f c. Skier_state E sk (Canvas_drawText E cv s a b f c w) = STATE_DEAD E) \<and>
        (\<forall>r. Skier_state E sk (Skier_draw E r w) = STATE_DEAD E) \<and>
        (\<forall>r. Skier_state E sk (Rhino_draw E r w) = STATE_DEAD E) \<and>
        (\<forall>r. Skier_state E sk (ObstacleManager_drawObstacles E r w) = STATE_DEAD E))"

text \<open>
  Modelled from the spec: \<open>Skier.handleInput\<close> is not under src/. The spec lets no key
  other than the restart key mutate an entity in GAME_OVER (sections 4.1 and 8), and
  GAME_OVER is entered with a dead skier: the input handler of a dead skier changes
  nothing in the store.
\<close>

definition dead_skier_ignores_input :: "('w, 's) env \<Rightarrow> bool" where
  "dead_skier_ignores_input E =
     (\<forall>sk key w. Skier_state E sk w = STATE_DEAD E \<longrightarrow>
        snd (Skier_handleInput E sk key w) = w)"

subsection \<open>A concrete instance of the collaborators\<close>

text \<open>
  Modelled from the spec: the collaborators \<open>Canvas\<close>, \<open>ImageManager\<close>, \<open>ObstacleManager\<close>,
  \<open>Skier\<close>, \<open>Rhino\<close> and the constants of \<open>Constants.ts\<close> are not under src/. The
  theorems below hold for every \<open>env\<close>; \<open>demo\<close> is one instance with the contracts of
  section 6 of the spec, on which they are evaluated. Its store holds the clock, the
  number of objects constructed, and the skier's position and state. The skier is
  constructed at the given position and moves down the slope by 10 at every update; the
  rhino catches it (the skier's state becomes the terminal dead value) once it is 30 or
  more down the slope; the input handler of a living skier recognises the left arrow
  key, which moves the skier 10 to the left (keyboard-driven control), and no other key;
  a dead skier handles no key; drawing and obstacle placement leave the store as it is.
\<close>

record sim =
  sim_clock :: real
  sim_objects :: nat
  sim_position :: Position
  sim_state :: string

definition alloc :: "sim \<Rightarrow> ref \<times> sim" where
  "alloc w = (Suc (sim_objects w), w\<lparr>sim_objects := Suc (sim_objects w)\<rparr>)"

definition demo :: "(sim, string) env" where
  "demo =
     \<lparr>GAME_CANVAS = ''skiCanvas'', GAME_WIDTH = 800, GAME_HEIGHT = 600, STATE_DEAD = ''dead'',
      Date_now = (\<lambda>w. (sim_clock w, w\<lparr>sim_clock := sim_clock w + 16\<rparr>)),
      Canvas_new = (\<lambda>_ _ _. alloc),
      Canvas_clearCanvas = (\<lambda>_ w. w),
      Canvas_setDrawOffset = (\<lambda>_ _ _ w. w),
      Canvas_drawText = (\<lambda>_ _ _ _ _ _ w. w),
      ImageManager_new = alloc,
      ObstacleManager_new = (\<lambda>_ _. alloc),
      ObstacleManager_placeInitialObstacles = (\<lambda>_ w. w),
      ObstacleManager_placeNewObstacle = (\<lambda>_ _ _ w. w),
      ObstacleManager_drawObstacles = (\<lambda>_ w. w),
      Skier_new = (\<lambda>px py _ _ _ w.
        (Suc (sim_objects w),
         w\<lparr>sim_objects := Suc (sim_objects w), sim_position := \<lparr>pos_x = px, pos_y = py\<rparr>,
           sim_state := ''skiing''\<rparr>)),
      Skier_getPosition = (\<lambda>_ w. sim_position w),
      Skier_state = (\<lambda>_ w. sim_state w),
      Skier_update = (\<lambda>_ _ w.
        if sim_state w = ''dead'' then w
        else w\<lparr>sim_position := \<lparr>pos_x = pos_x (sim_position w),
                                 pos_y = pos_y (sim_position w) + 10\<rparr>\<rparr>),
      Skier_draw = (\<lambda>_ w. w),
      Skier_handleInput = (\<lambda>_ key w.
        if key = ''ArrowLeft'' \<and> sim_state w \<noteq> ''dead''
        then (True, w\<lparr>sim_position := \<lparr>pos_x = pos_x (sim_position w) - 10,
                                       pos_y = pos_y (sim_position w)\<rparr>\<rparr>)
        else (False, w)),
      Rhino_new = (\<lambda>_ _ _ _. alloc),
      Rhino_update = (\<lambda>_ _ _ w.
        if 30 \<le> pos_y (sim_position w) then w\<lparr>sim_state := ''dead''\<rparr> else w),
      Rhino_draw = (\<lambda>_ w. w)\<rparr>"

definition sim0 :: sim where
  "sim0 = \<lparr>sim_clock = 1000, sim_objects = 0, sim_position = \<lparr>pos_x = 0, pos_y = 0\<rparr>,
           sim_state = ''none''\<rparr>"

text \<open>
  The store after construction, with the skier moved sideways to the double
  \<open>629.331070569934\<close>, which is \<open>5535654638498887 / 2 ^ 43\<close>.
\<close>

definition sim_aside :: sim where
  "sim_aside =
     \<lparr>sim_clock = 1016, sim_objects = 5,
      sim_position = \<lparr>pos_x = 5535654638498887 / 8796093022208, pos_y = 0\<rparr>,
      sim_state = ''skiing''\<rparr>"

section \<open>Rounding to doubles\<close>

lemma round_half_even_int [simp]: "round_half_even (of_int n) = n"
  by (simp add: round_half_even_def)

lemma round_half_even_error: "\<bar>of_int (round_half_even v) - v\<bar> \<le> 1 / 2"
  unfolding round_half_even_def Let_def by (auto simp: abs_if) linarith+

lemma to_double_error: "\<bar>to_double v - v\<bar> \<le> 2 powi spacing_exp v / 2"
proof -
  define q where "q = spacing_exp v"
  have pos: "(0::real) < 2 powi q" by simp
  have "to_double v - v = (of_int (round_half_even (v / 2 powi q)) - v / 2 powi q) * 2 powi q"
    by (simp add: to_double_def q_def algebra_simps)
  then have "\<bar>to_double v - v\<bar> = \<bar>of_int (round_half_even (v / 2 powi q)) - v / 2 powi q\<bar> * 2 powi q"
    by (simp add: abs_mult)
  also have "\<dots> \<le> 1 / 2 * 2 powi q"
    by (rule mult_right_mono [OF round_half_even_error]) simp
  finally show ?thesis by (simp add: q_def)
qed

lemma scaled_bound:
  fixes N :: nat and v :: real
  assumes "\<bar>v\<bar> < 2 powi (e + 53)" and "- int N \<le> e"
  shows "bitlen \<lfloor>\<bar>v\<bar> * 2 ^ N\<rfloor> \<le> e + 53 + int N"
proof -
  have "\<bar>v\<bar> * 2 ^ N < 2 powi (e + 53) * 2 powi int N"
    using assms(1) by simp
  also have "\<dots> = 2 powi (e + 53 + int N)"
    by (simp add: power_int_add)
  also have "\<dots> = 2 ^ nat (e + 53 + int N)"
    using assms(2) by (simp add: power_int_def)
  finally have "real_of_int \<lfloor>\<bar>v\<bar> * 2 ^ N\<rfloor> < 2 ^ nat (e + 53 + int N)"
    by (meson le_less_trans of_int_floor_le)
  then have "\<lfloor>\<bar>v\<bar> * 2 ^ N\<rfloor> < 2 ^ nat (e + 53 + int N)"
    by (metis of_int_less_iff of_int_numeral of_int_power)
  then show ?thesis
    using assms(2) by (simp add: bitlen_le_iff_power)
qed

lemma spacing_exp_le:
  assumes "\<bar>v\<bar> < 2 powi (e + 53)" and "- 1074 \<le> e"
  shows "spacing_exp v \<le> e"
proof -
  define N :: nat where "N = 1074"
  have s: "spacing_exp v = max (bitlen \<lfloor>\<bar>v\<bar> * 2 ^ N\<rfloor> - 53) 0 - int N"
    by (simp add: spacing_exp_def N_def)
  have "- int N \<le> e"
    using assms(2) by (simp add: N_def)
  from scaled_bound [OF assms(1) this] this show ?thesis
    unfolding s by simp
qed

lemma to_double_exact:
  assumes v: "v = of_int m * 2 powi e" and m: "\<bar>m\<bar> < 2 ^ 53" and e: "- 1074 \<le> e"
  shows "to_double v = v"
proof -
  define q where "q = spacing_exp v"
  have "real_of_int \<bar>m\<bar> < real_of_int (2 ^ 53)"
    using m by (simp only: of_int_less_iff)
  then have m': "\<bar>real_of_int m\<bar> < 2 ^ 53"
    by simp
  have "\<bar>v\<bar> = \<bar>real_of_int m\<bar> * 2 powi e"
    by (simp add: v abs_mult)
  also have "\<dots> < 2 ^ 53 * 2 powi e"
    using m' by (rule mult_strict_right_mono) simp
  also have "\<dots> = 2 powi (e + 53)"
    by (simp add: power_int_add)
  finally have "q \<le> e"
    unfolding q_def using e by (rule spacing_exp_le)
  then obtain k where k: "e = q + int k"
    by (metis zle_iff_zadd)
  have "v / 2 powi q = of_int (m * 2 ^ k)"
    by (simp add: v k power_int_add)
  then have r: "round_half_even (v / 2 powi q) = m * 2 ^ k"
    by (simp only: round_half_even_int)
  have "to_double v = of_int (round_half_even (v / 2 powi q)) * 2 powi q"
    by (simp add: to_double_def q_def)
  also have "\<dots> = of_int (m * 2 ^ k) * 2 powi q"
    by (simp only: r)
  also have "\<dots> = v"
    by (simp add: v k power_int_add)
  finally show ?thesis .
qed

lemma to_double_int:
  assumes "\<bar>n\<bar> < 2 ^ 53"
  shows "to_double (of_int n) = of_int n"
  using to_double_exact [of "of_int n" n 0] assms by simp

lemma spacing_exp_eq:
  assumes "2 powi (e + 52) \<le> \<bar>v\<bar>" and "\<bar>v\<bar> < 2 powi (e + 53)" and "- 1074 \<le> e"
  shows "spacing_exp v = e"
proof -
  define N :: nat where "N = 1074"
  have s: "spacing_exp v = max (bitlen \<lfloor>\<bar>v\<bar> * 2 ^ N\<rfloor> - 53) 0 - int N"
    by (simp add: spacing_exp_def N_def)
  have N: "- int N \<le> e"
    using assms(3) by (simp add: N_def)
  have le: "spacing_exp v \<le> e"
    using assms(2,3) by (rule spacing_exp_le)
  have "(2::real) ^ nat (e + 52 + int N) = 2 powi (e + 52 + int N)"
    using N by (simp add: power_int_def)
  also have "\<dots> = 2 powi (e + 52) * 2 ^ N"
    by (simp add: power_int_add)
  also have "\<dots> \<le> \<bar>v\<bar> * 2 ^ N"
    using assms(1) by simp
  finally have "real_of_int (2 ^ nat (e + 52 + int N)) \<le> \<bar>v\<bar> * 2 ^ N"
    by simp
  then have "2 ^ nat (e + 52 + int N) \<le> \<lfloor>\<bar>v\<bar> * 2 ^ N\<rfloor>"
    by (simp only: le_floor_iff)
  moreover have "nat (e + 53 + int N) - 1 = nat (e + 52 + int N)"
    using N by simp
  ultimately have "e + 53 + int N \<le> bitlen \<lfloor>\<bar>v\<bar> * 2 ^ N\<rfloor>"
    by (simp add: bitlen_ge_iff_power)
  then have "e \<le> spacing_exp v"
    unfolding s by simp
  with le show ?thesis by simp
qed


lemma to_double_numeral:
  "(numeral n :: int) < 2 ^ 53 \<Longrightarrow> to_double (numeral n) = numeral n"
  "(numeral n :: int) < 2 ^ 53 \<Longrightarrow> to_double (- numeral n) = - numeral n"
  "to_double 0 = 0"
  using to_double_int [of "numeral n"] to_double_int [of "- numeral n"] to_double_int [of 0]
  by simp_all

section \<open>What each method does to the fields\<close>

text \<open>
  Each method is rewritten as one update of the state it starts from, with the
  collaborators' results named by the assumptions. The claims are proved from these
  equations.
\<close>

lemma call_eq: "call ev f g = g\<lparr>world := f (world g), trace := trace g @ [ev]\<rparr>"
  by (simp add: call_def)

lemma calculateGameWindow_eq:
  "calculateGameWindow E g =
     g\<lparr>gameWindow :=
         \<lparr>left = js_sub (pos_x (Skier_getPosition E (skier g) (world g)))
                   (js_div (GAME_WIDTH E) 2),
          top = js_sub (pos_y (Skier_getPosition E (skier g) (world g)))
                  (js_div (GAME_HEIGHT E) 2),
          right = js_add (js_sub (pos_x (Skier_getPosition E (skier g) (world g)))
                            (js_div (GAME_WIDTH E) 2)) (GAME_WIDTH E),
          bottom = js_add (js_sub (pos_y (Skier_getPosition E (skier g) (world g)))
                             (js_div (GAME_HEIGHT E) 2)) (GAME_HEIGHT E)\<rparr>,
       trace := trace g @ [SkierGetPosition (skier g)]\<rparr>"
  by (simp add: calculateGameWindow_def Let_def)

lemma drawScore_eq:
  "drawScore E g =
     g\<lparr>world := Canvas_drawText E (canvas g)
                 (''Max Score: '' @ show_int \<lfloor>maxScore g\<rfloor> @ ''   Score: '' @ show_int \<lfloor>score g\<rfloor>)
                 (GAME_WIDTH E - 30 - 270) 30 ''20px Arial'' ''black'' (world g),
       trace := trace g @
         [DrawText (canvas g)
            (''Max Score: '' @ show_int \<lfloor>maxScore g\<rfloor> @ ''   Score: '' @ show_int \<lfloor>score g\<rfloor>)
            (GAME_WIDTH E - 30 - 270) 30 ''20px Arial'' ''black'']\<rparr>"
  by (simp add: drawScore_def call_eq Let_def)

lemma drawGameWindow_eq:
  "drawGameWindow E g =
     drawScore E
       (g\<lparr>world := ObstacleManager_drawObstacles E (obstacleManager g)
                    (Rhino_draw E (rhino g)
                      (Skier_draw E (skier g)
                        (Canvas_setDrawOffset E (canvas g) (left (gameWindow g))
                           (top (gameWindow g)) (world g)))),
          trace := trace g @
            [SetDrawOffset (canvas g) (left (gameWindow g)) (top (gameWindow g)),
             SkierDraw (skier g), RhinoDraw (rhino g), DrawObstacles (obstacleManager g)]\<rparr>)"
  by (simp add: drawGameWindow_def call_eq Let_def)

lemma drawGameOver_eq:
  "drawGameOver E g =
     g\<lparr>world := Canvas_drawText E (canvas g) ''Press Enter to restart'' (GAME_WIDTH E / 2 - 110)
                 (GAME_HEIGHT E / 2 + 40) ''20px Roboto'' ''green''
                 (Canvas_drawText E (canvas g) ''Game Over!'' (GAME_WIDTH E / 2 - 100)
                    (GAME_HEIGHT E / 2) ''30px Roboto'' ''red'' (world g)),
       trace := trace g @
         [DrawText (canvas g) ''Game Over!'' (GAME_WIDTH E / 2 - 100) (GAME_HEIGHT E / 2)
            ''30px Roboto'' ''red'',
          DrawText (canvas g) ''Press Enter to restart'' (GAME_WIDTH E / 2 - 110)
            (GAME_HEIGHT E / 2 + 40) ''20px Roboto'' ''green'']\<rparr>"
  by (simp add: drawGameOver_def call_eq Let_def)

lemma updateGameWindow_eq:
  assumes clock: "Date_now E (world g) = (now, w1)"
    and win: "win = gameWindow (calculateGameWindow E (g\<lparr>world := w1\<rparr>))"
    and w2: "w2 = ObstacleManager_placeNewObstacle E (obstacleManager g) win (gameWindow g) w1"
    and w3: "w3 = Skier_update E (skier g) now w2"
    and w4: "w4 = Rhino_update E (rhino g) now (skier g) w3"
    and tr: "tr = trace g @ [DateNow now, SkierGetPosition (skier g),
               PlaceNewObstacle (obstacleManager g) win (gameWindow g),
               SkierUpdate (skier g) now, RhinoUpdate (rhino g) now (skier g)]"
  shows "updateGameWindow E g =
     (if Skier_state E (skier g) w4 = STATE_DEAD E
      then resetScore (saveMaxScore
             (g\<lparr>gameWindow := win, gameTime := now, gameState := GAME_OVER, world := w4,
                trace := tr\<rparr>))
      else updateScore (g\<lparr>gameWindow := win, gameTime := now, world := w4, trace := tr\<rparr>))"
proof -
  define g1 where "g1 = g\<lparr>gameTime := now, world := w1, trace := trace g @ [DateNow now]\<rparr>"
  define g2 where "g2 = calculateGameWindow E g1"
  define g3 where "g3 = call (PlaceNewObstacle (obstacleManager g2) (gameWindow g2) (gameWindow g1))
                 (ObstacleManager_placeNewObstacle E (obstacleManager g2) (gameWindow g2)
                    (gameWindow g1)) g2"
  define g4 where "g4 = call (SkierUpdate (skier g3) (gameTime g3))
                 (Skier_update E (skier g3) (gameTime g3)) g3"
  define g5 where "g5 = call (RhinoUpdate (rhino g4) (gameTime g4) (skier g4))
                 (Rhino_update E (rhino g4) (gameTime g4) (skier g4)) g4"
  have u: "updateGameWindow E g =
      (if Skier_state E (skier g5) (world g5) = STATE_DEAD E
       then resetScore (saveMaxScore (g5\<lparr>gameState := GAME_OVER\<rparr>))
       else updateScore g5)"
    unfolding updateGameWindow_def clock g5_def g4_def g3_def g2_def g1_def
    by (simp only: Let_def prod.case)
  have e2: "g2 = g\<lparr>gameWindow := win, gameTime := now, world := w1,
                   trace := trace g @ [DateNow now, SkierGetPosition (skier g)]\<rparr>"
    by (simp add: g2_def g1_def calculateGameWindow_eq win)
  have e3: "g3 = g\<lparr>gameWindow := win, gameTime := now, world := w2,
                   trace := trace g @ [DateNow now, SkierGetPosition (skier g),
                     PlaceNewObstacle (obstacleManager g) win (gameWindow g)]\<rparr>"
    by (simp add: g3_def call_eq e2 g1_def w2)
  have e4: "g4 = g\<lparr>gameWindow := win, gameTime := now, world := w3,
                   trace := trace g @ [DateNow now, SkierGetPosition (skier g),
                     PlaceNewObstacle (obstacleManager g) win (gameWindow g),
                     SkierUpdate (skier g) now]\<rparr>"
    by (simp add: g4_def call_eq e3 w3)
  have e5: "g5 = g\<lparr>gameWindow := win, gameTime := now, world := w4, trace := tr\<rparr>"
    by (simp add: g5_def call_eq e4 w4 tr)
  show ?thesis
    by (simp add: u e5 saveMaxScore_def resetScore_def updateScore_def)
qed

lemma init_eq:
  assumes cv: "Canvas_new E (GAME_CANVAS E) (GAME_WIDTH E) (GAME_HEIGHT E) (world g) = (cv, w1)"
    and im: "imageManager g = Some im \<and> w2 = w1 \<and> evs = [] \<or>
             imageManager g = None \<and> ImageManager_new E w1 = (im, w2) \<and> evs = [NewImageManager]"
    and om: "ObstacleManager_new E im cv w2 = (om, w3)"
    and w4: "w4 = ObstacleManager_placeInitialObstacles E om w3"
    and sk: "Skier_new E 0 0 im om cv w4 = (sk, w5)"
    and rh: "Rhino_new E (- 500) (- 2000) im cv w5 = (rh, w6)"
    and win: "win = gameWindow (calculateGameWindow E (g\<lparr>skier := sk, world := w6\<rparr>))"
    and tr: "tr = trace g @ NewCanvas (GAME_CANVAS E) (GAME_WIDTH E) (GAME_HEIGHT E) # evs @
               [NewObstacleManager im cv, PlaceInitialObstacles om, NewSkier 0 0 im om cv,
                NewRhino (- 500) (- 2000) im cv, SkierGetPosition sk]"
  shows "init E g =
     g\<lparr>canvas := cv, gameWindow := win, imageManager := Some im, obstacleManager := om,
       skier := sk, rhino := rh, gameState := RUNNING, world := w6, trace := tr\<rparr>"
  using im om sk rh unfolding win tr w4
  by (auto simp: init_def cv Let_def call_eq calculateGameWindow_eq)

text \<open>\<open>init\<close> assigns these fields without reading them.\<close>

lemma init_assigns:
  "init E (g\<lparr>canvas := cv0, gameWindow := gw0, obstacleManager := om0, skier := sk0,
             rhino := rh0, gameState := st0\<rparr>) =
   init E g"
proof -
  define g' where "g' = g\<lparr>canvas := cv0, gameWindow := gw0, obstacleManager := om0,
    skier := sk0, rhino := rh0, gameState := st0\<rparr>"
  have same: "world g' = world g" "imageManager g' = imageManager g" "trace g' = trace g"
    by (simp_all add: g'_def)
  obtain cv w1 where cv: "Canvas_new E (GAME_CANVAS E) (GAME_WIDTH E) (GAME_HEIGHT E) (world g) = (cv, w1)"
    by (cases "Canvas_new E (GAME_CANVAS E) (GAME_WIDTH E) (GAME_HEIGHT E) (world g)")
  obtain im w2 evs where im: "imageManager g = Some im \<and> w2 = w1 \<and> evs = [] \<or>
             imageManager g = None \<and> ImageManager_new E w1 = (im, w2) \<and> evs = [NewImageManager]"
    by (cases "imageManager g"; cases "ImageManager_new E w1") auto
  obtain om w3 where om: "ObstacleManager_new E im cv w2 = (om, w3)"
    by (cases "ObstacleManager_new E im cv w2")
  obtain sk w5 where sk: "Skier_new E 0 0 im om cv (ObstacleManager_placeInitialObstacles E om w3) = (sk, w5)"
    by (cases "Skier_new E 0 0 im om cv (ObstacleManager_placeInitialObstacles E om w3)")
  obtain rh w6 where rh: "Rhino_new E (- 500) (- 2000) im cv w5 = (rh, w6)"
    by (cases "Rhino_new E (- 500) (- 2000) im cv w5")
  note e = init_eq [OF cv im om refl sk rh refl refl]
  note e' = init_eq [OF cv [folded same] im [folded same] om refl sk rh refl refl]
  have "init E g' = init E g"
    unfolding e e' by (simp add: calculateGameWindow_eq g'_def)
  then show ?thesis by (simp add: g'_def)
qed

text \<open>A frame that starts in RUNNING: the updates, then the draws.\<close>

lemma run_frame_running:
  assumes running: "gameState g = RUNNING"
    and clock: "Date_now E (Canvas_clearCanvas E (canvas g) (world g)) = (now, w1)"
    and win: "win = gameWindow (calculateGameWindow E (g\<lparr>world := w1\<rparr>))"
    and w2: "w2 = ObstacleManager_placeNewObstacle E (obstacleManager g) win (gameWindow g) w1"
    and w3: "w3 = Skier_update E (skier g) now w2"
    and w4: "w4 = Rhino_update E (rhino g) now (skier g) w3"
    and tr: "tr = trace g @ [ClearCanvas (canvas g), DateNow now, SkierGetPosition (skier g),
               PlaceNewObstacle (obstacleManager g) win (gameWindow g),
               SkierUpdate (skier g) now, RhinoUpdate (rhino g) now (skier g)]"
  shows "run_frame E g =
     drawGameWindow E
       (if Skier_state E (skier g) w4 = STATE_DEAD E
        then resetScore (saveMaxScore
               (g\<lparr>gameWindow := win, gameTime := now, gameState := GAME_OVER, world := w4,
                  trace := tr\<rparr>))
        else updateScore (g\<lparr>gameWindow := win, gameTime := now, world := w4, trace := tr\<rparr>))"
proof -
  define gc where "gc = call (ClearCanvas (canvas g)) (Canvas_clearCanvas E (canvas g)) g"
  have gc: "gc = g\<lparr>world := Canvas_clearCanvas E (canvas g) (world g),
                   trace := trace g @ [ClearCanvas (canvas g)]\<rparr>"
    by (simp add: gc_def call_eq)
  have "updateGameWindow E gc =
     (if Skier_state E (skier gc) w4 = STATE_DEAD E
      then resetScore (saveMaxScore
             (gc\<lparr>gameWindow := win, gameTime := now, gameState := GAME_OVER, world := w4,
                 trace := tr\<rparr>))
      else updateScore (gc\<lparr>gameWindow := win, gameTime := now, world := w4, trace := tr\<rparr>))"
    by (rule updateGameWindow_eq [where ?w1.0 = w1 and ?w2.0 = w2 and ?w3.0 = w3])
       (simp_all add: gc clock win w2 w3 w4 tr calculateGameWindow_eq)
  then have "updateGameWindow E gc =
     (if Skier_state E (skier g) w4 = STATE_DEAD E
      then resetScore (saveMaxScore
             (g\<lparr>gameWindow := win, gameTime := now, gameState := GAME_OVER, world := w4,
                trace := tr\<rparr>))
      else updateScore (g\<lparr>gameWindow := win, gameTime := now, world := w4, trace := tr\<rparr>))"
    by (simp add: gc)
  then show ?thesis
    using running by (simp add: run_frame_def gc_def)
qed

lemma updateGameWindow_cleared:
  assumes clock: "Date_now E (Canvas_clearCanvas E (canvas g) (world g)) = (now, w1)"
    and win: "win = gameWindow (calculateGameWindow E (g\<lparr>world := w1\<rparr>))"
    and w4: "w4 = Rhino_update E (rhino g) now (skier g)
               (Skier_update E (skier g) now
                  (ObstacleManager_placeNewObstacle E (obstacleManager g) win (gameWindow g) w1))"
  shows "trace (updateGameWindow E
                  (call (ClearCanvas (canvas g)) (Canvas_clearCanvas E (canvas g)) g)) =
           trace g @
           [ClearCanvas (canvas g), DateNow now, SkierGetPosition (skier g),
            PlaceNewObstacle (obstacleManager g) win (gameWindow g),
            SkierUpdate (skier g) now, RhinoUpdate (rhino g) now (skier g)]"
proof -
  define gc where "gc = call (ClearCanvas (canvas g)) (Canvas_clearCanvas E (canvas g)) g"
  have gc: "gc = g\<lparr>world := Canvas_clearCanvas E (canvas g) (world g),
                   trace := trace g @ [ClearCanvas (canvas g)]\<rparr>"
    by (simp add: gc_def call_eq)
  have "updateGameWindow E gc =
     (if Skier_state E (skier gc) w4 = STATE_DEAD E
      then resetScore (saveMaxScore
             (gc\<lparr>gameWindow := win, gameTime := now, gameState := GAME_OVER, world := w4,
                 trace := trace gc @ [DateNow now, SkierGetPosition (skier gc),
               PlaceNewObstacle (obstacleManager gc) win (gameWindow gc),
               SkierUpdate (skier gc) now, RhinoUpdate (rhino gc) now (skier gc)]\<rparr>))
      else updateScore (gc\<lparr>gameWindow := win, gameTime := now, world := w4,
        trace := trace gc @ [DateNow now, SkierGetPosition (skier gc),
               PlaceNewObstacle (obstacleManager gc) win (gameWindow gc),
               SkierUpdate (skier gc) now, RhinoUpdate (rhino gc) now (skier gc)]\<rparr>))"
    by (rule updateGameWindow_eq [where ?w1.0 = w1, OF _ _ refl refl _ refl])
       (simp_all add: gc clock win w4 calculateGameWindow_eq)
  then show ?thesis
    unfolding gc_def [symmetric]
    by (simp add: gc saveMaxScore_def resetScore_def updateScore_def)
qed

lemma updateGameWindow_after_clear:
  assumes clock: "Date_now E (Canvas_clearCanvas E (canvas g) (world g)) = (now, w1)"
    and win: "win = gameWindow (calculateGameWindow E (g\<lparr>world := w1\<rparr>))"
    and w4: "w4 = Rhino_update E (rhino g) now (skier g)
               (Skier_update E (skier g) now
                  (ObstacleManager_placeNewObstacle E (obstacleManager g) win (gameWindow g) w1))"
    and tr: "tr = trace g @ [ClearCanvas (canvas g), DateNow now, SkierGetPosition (skier g),
               PlaceNewObstacle (obstacleManager g) win (gameWindow g),
               SkierUpdate (skier g) now, RhinoUpdate (rhino g) now (skier g)]"
  shows "updateGameWindow E (call (ClearCanvas (canvas g)) (Canvas_clearCanvas E (canvas g)) g) =
     (if Skier_state E (skier g) w4 = STATE_DEAD E
      then resetScore (saveMaxScore
             (g\<lparr>gameWindow := win, gameTime := now, gameState := GAME_OVER, world := w4,
                trace := tr\<rparr>))
      else updateScore (g\<lparr>gameWindow := win, gameTime := now, world := w4, trace := tr\<rparr>))"
proof -
  define gc where "gc = call (ClearCanvas (canvas g)) (Canvas_clearCanvas E (canvas g)) g"
  have gc: "gc = g\<lparr>world := Canvas_clearCanvas E (canvas g) (world g),
                   trace := trace g @ [ClearCanvas (canvas g)]\<rparr>"
    by (simp add: gc_def call_eq)
  have "updateGameWindow E gc =
     (if Skier_state E (skier gc) w4 = STATE_DEAD E
      then resetScore (saveMaxScore
             (gc\<lparr>gameWindow := win, gameTime := now, gameState := GAME_OVER, world := w4,
                 trace := tr\<rparr>))
      else updateScore (gc\<lparr>gameWindow := win, gameTime := now, world := w4, trace := tr\<rparr>))"
    by (rule updateGameWindow_eq [where ?w1.0 = w1, OF _ _ refl refl])
       (simp_all add: gc clock win w4 tr calculateGameWindow_eq)
  then show ?thesis
    unfolding gc_def [symmetric]
    by (simp add: gc saveMaxScore_def resetScore_def updateScore_def)
qed

lemma run_frame_running_fields:
  assumes running: "gameState g = RUNNING"
    and clock: "Date_now E (Canvas_clearCanvas E (canvas g) (world g)) = (now, w1)"
    and win: "win = gameWindow (calculateGameWindow E (g\<lparr>world := w1\<rparr>))"
    and w4: "w4 = Rhino_update E (rhino g) now (skier g)
               (Skier_update E (skier g) now
                  (ObstacleManager_placeNewObstacle E (obstacleManager g) win (gameWindow g) w1))"
  shows "gameState (run_frame E g) =
           (if Skier_state E (skier g) w4 = STATE_DEAD E then GAME_OVER else RUNNING)"
    and "score (run_frame E g) =
           (if Skier_state E (skier g) w4 = STATE_DEAD E then 0 else score g + 0.5)"
    and "maxScore (run_frame E g) =
           (if Skier_state E (skier g) w4 = STATE_DEAD E then max (score g) (maxScore g)
            else maxScore g)"
    and "gameTime (run_frame E g) = now"
    and "gameWindow (run_frame E g) = win"
    and "canvas (run_frame E g) = canvas g"
    and "imageManager (run_frame E g) = imageManager g"
    and "obstacleManager (run_frame E g) = obstacleManager g"
    and "skier (run_frame E g) = skier g"
    and "rhino (run_frame E g) = rhino g"
    and "trace (run_frame E g) =
           trace g @
           [ClearCanvas (canvas g), DateNow now, SkierGetPosition (skier g),
            PlaceNewObstacle (obstacleManager g) win (gameWindow g),
            SkierUpdate (skier g) now, RhinoUpdate (rhino g) now (skier g),
            SetDrawOffset (canvas g) (left win) (top win), SkierDraw (skier g),
            RhinoDraw (rhino g), DrawObstacles (obstacleManager g),
            DrawText (canvas g)
              (''Max Score: '' @ show_int \<lfloor>maxScore (run_frame E g)\<rfloor> @ ''   Score: '' @
               show_int \<lfloor>score (run_frame E g)\<rfloor>)
              (GAME_WIDTH E - 30 - 270) 30 ''20px Arial'' ''black'']"
  using running
  by (simp_all add: run_frame_running [OF running clock win refl refl w4 refl] drawGameWindow_eq
      drawScore_eq saveMaxScore_def resetScore_def updateScore_def)

lemma init_fields:
  "score (init E g) = score g" "maxScore (init E g) = maxScore g"
  "gameTime (init E g) = gameTime g" "gameState (init E g) = RUNNING"
  "imageManager (init E g) \<noteq> None"
  "imageManager g = Some im \<Longrightarrow> imageManager (init E g) = Some im"
proof -
  obtain cv w1 where cv: "Canvas_new E (GAME_CANVAS E) (GAME_WIDTH E) (GAME_HEIGHT E) (world g) = (cv, w1)"
    by (cases "Canvas_new E (GAME_CANVAS E) (GAME_WIDTH E) (GAME_HEIGHT E) (world g)")
  obtain im' w2 evs where im: "imageManager g = Some im' \<and> w2 = w1 \<and> evs = [] \<or>
             imageManager g = None \<and> ImageManager_new E w1 = (im', w2) \<and> evs = [NewImageManager]"
    by (cases "imageManager g"; cases "ImageManager_new E w1") auto
  obtain om w3 where om: "ObstacleManager_new E im' cv w2 = (om, w3)"
    by (cases "ObstacleManager_new E im' cv w2")
  obtain sk w5 where sk: "Skier_new E 0 0 im' om cv (ObstacleManager_placeInitialObstacles E om w3) = (sk, w5)"
    by (cases "Skier_new E 0 0 im' om cv (ObstacleManager_placeInitialObstacles E om w3)")
  obtain rh w6 where rh: "Rhino_new E (- 500) (- 2000) im' cv w5 = (rh, w6)"
    by (cases "Rhino_new E (- 500) (- 2000) im' cv w5")
  note eq = init_eq [OF cv im om refl sk rh refl refl]
  show "score (init E g) = score g" "maxScore (init E g) = maxScore g"
    "gameTime (init E g) = gameTime g" "gameState (init E g) = RUNNING"
    "imageManager (init E g) \<noteq> None"
    by (simp_all add: eq)
  show "imageManager (init E g) = Some im" if "imageManager g = Some im"
    using im that by (simp add: eq)
qed

lemma handleKeyDown_forward:
  assumes "\<not> (gameState g = GAME_OVER \<and> key = ''Enter'')"
  shows "handleKeyDown E key g =
     g\<lparr>world := snd (Skier_handleInput E (skier g) key (world g)),
       trace := trace g @ SkierHandleInput (skier g) key #
                (if fst (Skier_handleInput E (skier g) key (world g)) then [PreventDefault] else [])\<rparr>"
proof (cases "Skier_handleInput E (skier g) key (world g)")
  case (Pair handled w1)
  with assms show ?thesis
    by (auto simp: handleKeyDown_def Let_def)
qed

lemma handleKeyDown_restart:
  assumes "gameState g = GAME_OVER"
  shows "handleKeyDown E ''Enter'' g =
           (init E g)\<lparr>trace := trace (init E g) @ [PreventDefault]\<rparr>"
  using assms by (simp add: handleKeyDown_def restartGame_def Let_def init_fields)

lemma run_frame_game_over:
  assumes "gameState g = GAME_OVER"
  shows "run_frame E g = drawGameOver E g"
  using assms by (simp add: run_frame_def)

lemma run_frame_alive:
  assumes "gameState g = RUNNING" and "gameState (run_frame E g) = RUNNING"
  shows "score (run_frame E g) = score g + 0.5 \<and> maxScore (run_frame E g) = maxScore g"
proof -
  obtain now w1 where clock: "Date_now E (Canvas_clearCanvas E (canvas g) (world g)) = (now, w1)"
    by (cases "Date_now E (Canvas_clearCanvas E (canvas g) (world g))")
  note f = run_frame_running_fields [OF assms(1) clock refl refl]
  from assms(2) show ?thesis
    by (simp add: f split: if_splits)
qed

lemma run_frame_scores:
  "maxScore g \<le> maxScore (run_frame E g) \<and>
   max (maxScore g) (score g) \<le> max (maxScore (run_frame E g)) (score (run_frame E g)) \<and>
   (0 \<le> maxScore g \<longrightarrow> 0 \<le> maxScore (run_frame E g)) \<and>
   ((gameState g = GAME_OVER \<longrightarrow> score g = 0) \<longrightarrow>
     gameState (run_frame E g) = GAME_OVER \<longrightarrow> score (run_frame E g) = 0) \<and>
   imageManager (run_frame E g) = imageManager g"
proof (cases "gameState g")
  case RUNNING
  obtain now w1 where clock: "Date_now E (Canvas_clearCanvas E (canvas g) (world g)) = (now, w1)"
    by (cases "Date_now E (Canvas_clearCanvas E (canvas g) (world g))")
  note f = run_frame_running_fields [OF RUNNING clock refl refl]
  show ?thesis by (auto simp: f max_def)
next
  case GAME_OVER
  then show ?thesis by (simp add: run_frame_game_over drawGameOver_eq)
qed

lemma handleKeyDown_scores:
  "maxScore (handleKeyDown E key g) = maxScore g \<and>
   score (handleKeyDown E key g) = score g \<and>
   (imageManager g \<noteq> None \<longrightarrow> imageManager (handleKeyDown E key g) \<noteq> None)"
proof (cases "gameState g = GAME_OVER \<and> key = ''Enter''")
  case True
  then show ?thesis by (simp add: handleKeyDown_restart init_fields)
next
  case False
  then show ?thesis by (simp add: handleKeyDown_forward)
qed

lemma step_scores:
  "maxScore g \<le> maxScore (step E g i) \<and>
   max (maxScore g) (score g) \<le> max (maxScore (step E g i)) (score (step E g i)) \<and>
   (0 \<le> maxScore g \<longrightarrow> 0 \<le> maxScore (step E g i)) \<and>
   ((gameState g = GAME_OVER \<longrightarrow> score g = 0) \<longrightarrow>
     gameState (step E g i) = GAME_OVER \<longrightarrow> score (step E g i) = 0) \<and>
   (imageManager g \<noteq> None \<longrightarrow> imageManager (step E g i) \<noteq> None)"
proof (cases i)
  case Frame
  then show ?thesis using run_frame_scores [of g E] by simp
next
  case (KeyDown key)
  show ?thesis
  proof (cases "gameState g = GAME_OVER \<and> key = ''Enter''")
    case True
    then show ?thesis
      using handleKeyDown_scores [of E key g] KeyDown by simp
  next
    case False
    then show ?thesis
      using handleKeyDown_scores [of E key g] KeyDown
      by (auto simp: handleKeyDown_forward)
  qed
qed

lemma run_exec: "run E n g = exec E g (replicate n Frame)"
  by (induction n arbitrary: g) simp_all

lemma exec_bound:
  "max (maxScore g) (score g) \<le> max (maxScore (exec E g ins)) (score (exec E g ins))"
proof (induction ins arbitrary: g)
  case Nil
  show ?case by simp
next
  case (Cons i ins)
  have "max (maxScore g) (score g) \<le> max (maxScore (step E g i)) (score (step E g i))"
    using step_scores [of g E i] by simp
  also have "\<dots> \<le> max (maxScore (exec E (step E g i) ins)) (score (exec E (step E g i) ins))"
    by (rule Cons.IH)
  finally show ?case by simp
qed

lemma states_bound:
  "h \<in> set (states E g ins) \<Longrightarrow>
     score h \<le> max (maxScore (exec E g ins)) (score (exec E g ins))"
proof (induction ins arbitrary: g)
  case Nil
  then show ?case by simp
next
  case (Cons i ins)
  from Cons.prems have "h = g \<or> h \<in> set (states E (step E g i) ins)" by simp
  then show ?case
  proof
    assume "h = g"
    then have "score h \<le> max (maxScore g) (score g)" by simp
    also have "\<dots> \<le> max (maxScore (exec E g (i # ins))) (score (exec E g (i # ins)))"
      by (rule exec_bound)
    finally show ?thesis .
  next
    assume "h \<in> set (states E (step E g i) ins)"
    then show ?thesis using Cons.IH by simp
  qed
qed

lemma exec_invariant:
  assumes "gameState g = GAME_OVER \<longrightarrow> score g = 0" and "0 \<le> maxScore g"
    and "imageManager g \<noteq> None"
  shows "(gameState (exec E g ins) = GAME_OVER \<longrightarrow> score (exec E g ins) = 0) \<and>
         0 \<le> maxScore (exec E g ins) \<and> imageManager (exec E g ins) \<noteq> None"
  using assms
proof (induction ins arbitrary: g)
  case Nil
  then show ?case by simp
next
  case (Cons i ins)
  have "(gameState (step E g i) = GAME_OVER \<longrightarrow> score (step E g i) = 0) \<and>
        0 \<le> maxScore (step E g i) \<and> imageManager (step E g i) \<noteq> None"
    using step_scores [of g E i] Cons.prems by blast
  then show ?case
    using Cons.IH [of "step E g i"] by simp
qed

lemma Game_new_fields:
  "gameState (Game_new E w) = RUNNING \<and> score (Game_new E w) = 0 \<and>
   maxScore (Game_new E w) = 0 \<and> imageManager (Game_new E w) \<noteq> None"
proof -
  obtain now w1 where "Date_now E w = (now, w1)"
    by (cases "Date_now E w")
  then have new: "Game_new E w =
      setupInputHandling (init E ((blank w1)\<lparr>gameTime := now, trace := [DateNow now]\<rparr>))"
    by (simp add: Game_new_def)
  have "imageManager (setupInputHandling g) = imageManager g" for g :: "'a Game"
    by (simp add: setupInputHandling_def)
  then have "imageManager (Game_new E w) \<noteq> None"
    unfolding new using init_fields(5) by metis
  then show ?thesis
    by (simp add: new setupInputHandling_def init_fields blank_def)
qed

lemma reachable_invariant:
  assumes "reachable E w g"
  shows "(gameState g = GAME_OVER \<longrightarrow> score g = 0) \<and> 0 \<le> maxScore g \<and> imageManager g \<noteq> None"
proof -
  from assms obtain ins where g: "g = exec E (Game_new E w) ins"
    by (auto simp: reachable_def)
  show ?thesis
    unfolding g by (rule exec_invariant) (simp_all add: Game_new_fields)
qed

text \<open>Under the two assumptions on the dead state, the skier of a GAME_OVER state is dead.\<close>

lemma run_frame_running_world:
  assumes running: "gameState g = RUNNING"
    and clock: "Date_now E (Canvas_clearCanvas E (canvas g) (world g)) = (now, w1)"
    and win: "win = gameWindow (calculateGameWindow E (g\<lparr>world := w1\<rparr>))"
    and w4: "w4 = Rhino_update E (rhino g) now (skier g)
               (Skier_update E (skier g) now
                  (ObstacleManager_placeNewObstacle E (obstacleManager g) win (gameWindow g) w1))"
  shows "world (run_frame E g) =
           Canvas_drawText E (canvas g)
             (''Max Score: '' @ show_int \<lfloor>maxScore (run_frame E g)\<rfloor> @ ''   Score: '' @
              show_int \<lfloor>score (run_frame E g)\<rfloor>)
             (GAME_WIDTH E - 30 - 270) 30 ''20px Arial'' ''black''
             (ObstacleManager_drawObstacles E (obstacleManager g)
                (Rhino_draw E (rhino g)
                   (Skier_draw E (skier g)
                      (Canvas_setDrawOffset E (canvas g) (left win) (top win) w4))))"
  using running
  by (simp add: run_frame_running [OF running clock win refl refl w4 refl] drawGameWindow_eq
      drawScore_eq saveMaxScore_def resetScore_def updateScore_def)

lemma step_keeps_dead:
  assumes terminal: "dead_is_terminal E" and ign: "dead_skier_ignores_input E"
    and inv: "gameState g = GAME_OVER \<longrightarrow> Skier_state E (skier g) (world g) = STATE_DEAD E"
  shows "gameState (step E g i) = GAME_OVER \<longrightarrow>
           Skier_state E (skier (step E g i)) (world (step E g i)) = STATE_DEAD E"
proof (cases i)
  case Frame
  show ?thesis
  proof (cases "gameState g")
    case RUNNING
    obtain now w1 where clock: "Date_now E (Canvas_clearCanvas E (canvas g) (world g)) = (now, w1)"
      by (cases "Date_now E (Canvas_clearCanvas E (canvas g) (world g))")
    note f = run_frame_running_fields [OF RUNNING clock refl refl]
    note w = run_frame_running_world [OF RUNNING clock refl refl]
    show ?thesis
      unfolding Frame step.simps w f(9)
      using terminal by (auto simp: f(1) dead_is_terminal_def split: if_splits)
  next
    case GAME_OVER
    with inv have "Skier_state E (skier g) (world g) = STATE_DEAD E" by simp
    with terminal show ?thesis
      by (simp add: Frame GAME_OVER run_frame_game_over drawGameOver_eq dead_is_terminal_def)
  qed
next
  case (KeyDown key)
  show ?thesis
  proof (cases "gameState g = GAME_OVER \<and> key = ''Enter''")
    case True
    then show ?thesis
      by (simp add: KeyDown handleKeyDown_restart init_fields)
  next
    case False
    show ?thesis
    proof
      assume "gameState (step E g i) = GAME_OVER"
      with False have over: "gameState g = GAME_OVER"
        by (simp add: KeyDown handleKeyDown_forward)
      with inv have dead: "Skier_state E (skier g) (world g) = STATE_DEAD E" by simp
      with ign have "snd (Skier_handleInput E (skier g) key (world g)) = world g"
        by (simp add: dead_skier_ignores_input_def)
      with dead False show "Skier_state E (skier (step E g i)) (world (step E g i)) = STATE_DEAD E"
        by (simp add: KeyDown handleKeyDown_forward)
    qed
  qed
qed

lemma reachable_dead:
  assumes "dead_is_terminal E" and "dead_skier_ignores_input E"
    and "reachable E w g" and "gameState g = GAME_OVER"
  shows "Skier_state E (skier g) (world g) = STATE_DEAD E"
proof -
  have ex: "gameState (exec E s ins) = GAME_OVER \<longrightarrow>
      Skier_state E (skier (exec E s ins)) (world (exec E s ins)) = STATE_DEAD E"
    if "gameState s = GAME_OVER \<longrightarrow> Skier_state E (skier s) (world s) = STATE_DEAD E"
    for s ins
    using that
  proof (induction ins arbitrary: s)
    case Nil
    then show ?case by simp
  next
    case (Cons i ins)
    from step_keeps_dead [OF assms(1,2) Cons.prems] Cons.IH [of "step E s i"]
    show ?case by simp
  qed
  from assms(3) obtain ins where g: "g = exec E (Game_new E w) ins"
    by (auto simp: reachable_def)
  have "gameState (Game_new E w) = RUNNING"
    using Game_new_fields [of E w] by simp
  then show ?thesis
    using ex [of "Game_new E w" ins] assms(4) by (simp add: g)
qed

section \<open>The concrete instance, evaluated\<close>

lemma demo_sel:
  "GAME_CANVAS demo = ''skiCanvas''" "GAME_WIDTH demo = 800" "GAME_HEIGHT demo = 600"
  "STATE_DEAD demo = ''dead''"
  "Date_now demo w = (sim_clock w, w\<lparr>sim_clock := sim_clock w + 16\<rparr>)"
  "Canvas_new demo c a b w = alloc w"
  "Canvas_clearCanvas demo r w = w"
  "Canvas_setDrawOffset demo r a b w = w"
  "Canvas_drawText demo r s a b f c w = w"
  "ImageManager_new demo w = alloc w"
  "ObstacleManager_new demo r r' w = alloc w"
  "ObstacleManager_placeInitialObstacles demo r w = w"
  "ObstacleManager_placeNewObstacle demo r v v' w = w"
  "ObstacleManager_drawObstacles demo r w = w"
  "Skier_new demo a b r r' r'' w =
     (Suc (sim_objects w),
      w\<lparr>sim_objects := Suc (sim_objects w), sim_position := \<lparr>pos_x = a, pos_y = b\<rparr>,
        sim_state := ''skiing''\<rparr>)"
  "Skier_getPosition demo r w = sim_position w"
  "Skier_state demo r w = sim_state w"
  "Skier_update demo r a w =
     (if sim_state w = ''dead'' then w
      else w\<lparr>sim_position := \<lparr>pos_x = pos_x (sim_position w),
                               pos_y = pos_y (sim_position w) + 10\<rparr>\<rparr>)"
  "Skier_draw demo r w = w"
  "Skier_handleInput demo r key w =
     (if key = ''ArrowLeft'' \<and> sim_state w \<noteq> ''dead''
      then (True, w\<lparr>sim_position := \<lparr>pos_x = pos_x (sim_position w) - 10,
                                     pos_y = pos_y (sim_position w)\<rparr>\<rparr>)
      else (False, w))"
  "Rhino_new demo a b r r' w = alloc w"
  "Rhino_update demo r a r' w =
     (if 30 \<le> pos_y (sim_position w) then w\<lparr>sim_state := ''dead''\<rparr> else w)"
  "Rhino_draw demo r w = w"
  by (simp_all add: demo_def)

lemma demo_start:
  "Game_new demo sim0 =
     \<lparr>canvas = 1, gameWindow = \<lparr>left = - 400, top = - 300, right = 400, bottom = 300\<rparr>,
      gameTime = 1000, imageManager = Some 2, obstacleManager = 3, skier = 4, rhino = 5,
      gameState = RUNNING, score = 0, maxScore = 0,
      world = \<lparr>sim_clock = 1016, sim_objects = 5, sim_position = \<lparr>pos_x = 0, pos_y = 0\<rparr>,
                sim_state = ''skiing''\<rparr>,
      trace = [DateNow 1000, NewCanvas ''skiCanvas'' 800 600, NewImageManager,
               NewObstacleManager 2 1, PlaceInitialObstacles 3, NewSkier 0 0 2 3 1,
               NewRhino (- 500) (- 2000) 2 1, SkierGetPosition 4, AddEventListener ''keydown'']\<rparr>"
  by (simp add: Game_new_def blank_def setupInputHandling_def init_def call_eq
      calculateGameWindow_eq demo_sel sim0_def alloc_def Let_def js_add_def js_sub_def js_div_def
      to_double_numeral)

lemma show_int_0: "show_int 0 = ''0''"
  by (simp add: show_int_def show_nat.simps [of 0])

lemma show_int_1: "show_int 1 = ''1''"
  by (simp add: show_int_def show_nat.simps [of "Suc 0"])

lemma fields_of_demo_start:
  "canvas (Game_new demo sim0) = 1" "skier (Game_new demo sim0) = 4"
  "rhino (Game_new demo sim0) = 5" "obstacleManager (Game_new demo sim0) = 3"
  "gameState (Game_new demo sim0) = RUNNING" "score (Game_new demo sim0) = 0"
  "maxScore (Game_new demo sim0) = 0"
  by (simp_all add: demo_start)

lemmas eval_frame = run_frame_def updateGameWindow_def drawGameWindow_eq drawScore_eq
  drawGameOver_eq call_eq calculateGameWindow_eq saveMaxScore_def resetScore_def updateScore_def
  demo_sel Let_def js_add_def js_sub_def js_div_def to_double_numeral

text \<open>The first three frames: the skier dies in the third.\<close>

lemma demo_frame1:
  "run_frame demo (Game_new demo sim0) =
     \<lparr>canvas = 1, gameWindow = \<lparr>left = - 400, top = - 300, right = 400, bottom = 300\<rparr>,
      gameTime = 1016, imageManager = Some 2, obstacleManager = 3, skier = 4, rhino = 5,
      gameState = RUNNING, score = 1 / 2, maxScore = 0,
      world = \<lparr>sim_clock = 1032, sim_objects = 5, sim_position = \<lparr>pos_x = 0, pos_y = 10\<rparr>,
                sim_state = ''skiing''\<rparr>,
      trace = [DateNow 1000, NewCanvas ''skiCanvas'' 800 600, NewImageManager,
               NewObstacleManager 2 1, PlaceInitialObstacles 3, NewSkier 0 0 2 3 1,
               NewRhino (- 500) (- 2000) 2 1, SkierGetPosition 4, AddEventListener ''keydown'',
               ClearCanvas 1, DateNow 1016, SkierGetPosition 4,
               PlaceNewObstacle 3 \<lparr>left = - 400, top = - 300, right = 400, bottom = 300\<rparr>
                 \<lparr>left = - 400, top = - 300, right = 400, bottom = 300\<rparr>,
               SkierUpdate 4 1016, RhinoUpdate 5 1016 4,
               SetDrawOffset 1 (- 400) (- 300), SkierDraw 4, RhinoDraw 5, DrawObstacles 3,
               DrawText 1 ''Max Score: 0   Score: 0'' 500 30 ''20px Arial'' ''black'']\<rparr>"
  unfolding demo_start
  by (simp add: eval_frame show_int_0)

lemma exec_snoc: "exec E g (ins @ [i]) = step E (exec E g ins) i"
  by (induction ins arbitrary: g) simp_all

lemma demo_frame2:
  "exec demo (Game_new demo sim0) [Frame, Frame] =
     \<lparr>canvas = 1, gameWindow = \<lparr>left = - 400, top = - 290, right = 400, bottom = 310\<rparr>,
      gameTime = 1032, imageManager = Some 2, obstacleManager = 3, skier = 4, rhino = 5,
      gameState = RUNNING, score = 1, maxScore = 0,
      world = \<lparr>sim_clock = 1048, sim_objects = 5, sim_position = \<lparr>pos_x = 0, pos_y = 20\<rparr>,
                sim_state = ''skiing''\<rparr>,
      trace = [DateNow 1000, NewCanvas ''skiCanvas'' 800 600, NewImageManager,
               NewObstacleManager 2 1, PlaceInitialObstacles 3, NewSkier 0 0 2 3 1,
               NewRhino (- 500) (- 2000) 2 1, SkierGetPosition 4, AddEventListener ''keydown'',
               ClearCanvas 1, DateNow 1016, SkierGetPosition 4,
               PlaceNewObstacle 3 \<lparr>left = - 400, top = - 300, right = 400, bottom = 300\<rparr>
                 \<lparr>left = - 400, top = - 300, right = 400, bottom = 300\<rparr>,
               SkierUpdate 4 1016, RhinoUpdate 5 1016 4,
               SetDrawOffset 1 (- 400) (- 300), SkierDraw 4, RhinoDraw 5, DrawObstacles 3,
               DrawText 1 ''Max Score: 0   Score: 0'' 500 30 ''20px Arial'' ''black'',
               ClearCanvas 1, DateNow 1032, SkierGetPosition 4,
               PlaceNewObstacle 3 \<lparr>left = - 400, top = - 290, right = 400, bottom = 310\<rparr>
                 \<lparr>left = - 400, top = - 300, right = 400, bottom = 300\<rparr>,
               SkierUpdate 4 1032, RhinoUpdate 5 1032 4,
               SetDrawOffset 1 (- 400) (- 290), SkierDraw 4, RhinoDraw 5, DrawObstacles 3,
               DrawText 1 ''Max Score: 0   Score: 1'' 500 30 ''20px Arial'' ''black'']\<rparr>"
proof -
  have unroll: "exec demo (Game_new demo sim0) [Frame, Frame] =
        run_frame demo (run_frame demo (Game_new demo sim0))"
    by simp
  show ?thesis
    unfolding unroll demo_frame1 by (simp add: eval_frame show_int_0 show_int_1)
qed

lemma demo_frame3:
  "exec demo (Game_new demo sim0) [Frame, Frame, Frame] =
     \<lparr>canvas = 1, gameWindow = \<lparr>left = - 400, top = - 280, right = 400, bottom = 320\<rparr>,
      gameTime = 1048, imageManager = Some 2, obstacleManager = 3, skier = 4, rhino = 5,
      gameState = GAME_OVER, score = 0, maxScore = 1,
      world = \<lparr>sim_clock = 1064, sim_objects = 5, sim_position = \<lparr>pos_x = 0, pos_y = 30\<rparr>,
                sim_state = ''dead''\<rparr>,
      trace = [DateNow 1000, NewCanvas ''skiCanvas'' 800 600, NewImageManager,
               NewObstacleManager 2 1, PlaceInitialObstacles 3, NewSkier 0 0 2 3 1,
               NewRhino (- 500) (- 2000) 2 1, SkierGetPosition 4, AddEventListener ''keydown'',
               ClearCanvas 1, DateNow 1016, SkierGetPosition 4,
               PlaceNewObstacle 3 \<lparr>left = - 400, top = - 300, right = 400, bottom = 300\<rparr>
                 \<lparr>left = - 400, top = - 300, right = 400, bottom = 300\<rparr>,
               SkierUpdate 4 1016, RhinoUpdate 5 1016 4,
               SetDrawOffset 1 (- 400) (- 300), SkierDraw 4, RhinoDraw 5, DrawObstacles 3,
               DrawText 1 ''Max Score: 0   Score: 0'' 500 30 ''20px Arial'' ''black'',
               ClearCanvas 1, DateNow 1032, SkierGetPosition 4,
               PlaceNewObstacle 3 \<lparr>left = - 400, top = - 290, right = 400, bottom = 310\<rparr>
                 \<lparr>left = - 400, top = - 300, right = 400, bottom = 300\<rparr>,
               SkierUpdate 4 1032, RhinoUpdate 5 1032 4,
               SetDrawOffset 1 (- 400) (- 290), SkierDraw 4, RhinoDraw 5, DrawObstacles 3,
               DrawText 1 ''Max Score: 0   Score: 1'' 500 30 ''20px Arial'' ''black'',
               ClearCanvas 1, DateNow 1048, SkierGetPosition 4,
               PlaceNewObstacle 3 \<lparr>left = - 400, top = - 280, right = 400, bottom = 320\<rparr>
                 \<lparr>left = - 400, top = - 290, right = 400, bottom = 310\<rparr>,
               SkierUpdate 4 1048, RhinoUpdate 5 1048 4,
               SetDrawOffset 1 (- 400) (- 280), SkierDraw 4, RhinoDraw 5, DrawObstacles 3,
               DrawText 1 ''Max Score: 1   Score: 0'' 500 30 ''20px Arial'' ''black'']\<rparr>"
proof -
  have unroll: "exec demo (Game_new demo sim0) [Frame, Frame, Frame] =
        run_frame demo (exec demo (Game_new demo sim0) [Frame, Frame])"
    by (simp del: exec.simps add: exec_snoc [of _ _ "[Frame, Frame]" Frame, simplified])
  show ?thesis
    unfolding unroll demo_frame2 by (simp add: eval_frame show_int_0 show_int_1)
qed

section \<open>The claims\<close>

text \<open>
  C1, as stated, fails: the first frame of the concrete instance draws the skier, the
  rhino, the obstacles and the score text in that order, so the obstacles are not drawn
  first.
\<close>

theorem draw_order_counterexample:
  "gameState (Game_new demo sim0) = RUNNING \<and>
   filter is_draw (drop (length (trace (Game_new demo sim0)))
     (trace (run_frame demo (Game_new demo sim0)))) =
     [SkierDraw 4, RhinoDraw 5, DrawObstacles 3,
      DrawText 1 ''Max Score: 0   Score: 0'' 500 30 ''20px Arial'' ''black''] \<and>
   filter is_draw (drop (length (trace (Game_new demo sim0)))
     (trace (run_frame demo (Game_new demo sim0)))) \<noteq>
     [DrawObstacles 3, SkierDraw 4, RhinoDraw 5,
      DrawText 1 ''Max Score: 0   Score: 0'' 500 30 ''20px Arial'' ''black'']"
  unfolding demo_frame1 by (simp add: demo_start)

text \<open>
  C1, amended. In every frame that starts in RUNNING, after the entities and the score are
  updated, the controller sets the draw offset to the viewport's corner and then draws
  the skier first, then the rhino, then the obstacles, and finally the score overlay, in
  exactly that order; these are the last calls of the frame and its only draws.
\<close>

theorem frame_draw_order:
  assumes "gameState g = RUNNING"
  shows "trace (run_frame E g) =
           trace (updateGameWindow E
                    (call (ClearCanvas (canvas g)) (Canvas_clearCanvas E (canvas g)) g)) @
           [SetDrawOffset (canvas g) (left (gameWindow (run_frame E g)))
              (top (gameWindow (run_frame E g))),
            SkierDraw (skier g), RhinoDraw (rhino g), DrawObstacles (obstacleManager g),
            DrawText (canvas g)
              (''Max Score: '' @ show_int \<lfloor>maxScore (run_frame E g)\<rfloor> @ ''   Score: '' @
               show_int \<lfloor>score (run_frame E g)\<rfloor>)
              (GAME_WIDTH E - 30 - 270) 30 ''20px Arial'' ''black''] \<and>
         filter is_draw (drop (length (trace g)) (trace (run_frame E g))) =
           [SkierDraw (skier g), RhinoDraw (rhino g), DrawObstacles (obstacleManager g),
            DrawText (canvas g)
              (''Max Score: '' @ show_int \<lfloor>maxScore (run_frame E g)\<rfloor> @ ''   Score: '' @
               show_int \<lfloor>score (run_frame E g)\<rfloor>)
              (GAME_WIDTH E - 30 - 270) 30 ''20px Arial'' ''black'']"
proof -
  obtain now w1 where clock: "Date_now E (Canvas_clearCanvas E (canvas g) (world g)) = (now, w1)"
    by (cases "Date_now E (Canvas_clearCanvas E (canvas g) (world g))")
  show ?thesis
    unfolding updateGameWindow_cleared [OF clock refl refl]
    by (simp add: run_frame_running_fields [OF assms clock refl refl])
qed

theorem frame_draw_order_witness:
  "gameState (Game_new demo sim0) = RUNNING \<and>
   filter is_draw (drop (length (trace (Game_new demo sim0)))
     (trace (run_frame demo (Game_new demo sim0)))) =
     [SkierDraw 4, RhinoDraw 5, DrawObstacles 3,
      DrawText 1 ''Max Score: 0   Score: 0'' 500 30 ''20px Arial'' ''black'']"
proof -
  have running: "gameState (Game_new demo sim0) = RUNNING"
    by (simp add: demo_start)
  have "canvas (Game_new demo sim0) = 1" "skier (Game_new demo sim0) = 4"
    "rhino (Game_new demo sim0) = 5" "obstacleManager (Game_new demo sim0) = 3"
    "maxScore (run_frame demo (Game_new demo sim0)) = 0"
    "score (run_frame demo (Game_new demo sim0)) = 1 / 2"
    by (simp_all add: demo_frame1) (simp_all add: demo_start)
  note f = this
  show ?thesis
    using frame_draw_order [OF running, of demo, THEN conjunct2] running
    unfolding f by (simp add: demo_sel show_int_0)
qed

text \<open>
  C2, as stated, fails: the code computes the viewport in doubles, and \<open>left + W\<close> is
  rounded. With the skier at \<open>x = 629.331070569934\<close> and \<open>W = 800\<close>, \<open>left\<close> is
  \<open>229.331070569934\<close> and \<open>right\<close> is \<open>1029.3310705699341\<close>: \<open>right - left\<close> is
  \<open>800 + 2 ^ -43\<close>, not \<open>W\<close>.
\<close>

theorem viewport_width_counterexample:
  "Skier_getPosition demo (skier ((Game_new demo sim0)\<lparr>world := sim_aside\<rparr>)) sim_aside =
     \<lparr>pos_x = 5535654638498887 / 8796093022208, pos_y = 0\<rparr> \<and>
   left (gameWindow (calculateGameWindow demo ((Game_new demo sim0)\<lparr>world := sim_aside\<rparr>))) =
     2017217429615687 / 8796093022208 \<and>
   right (gameWindow (calculateGameWindow demo ((Game_new demo sim0)\<lparr>world := sim_aside\<rparr>))) =
     1131761480922761 / 1099511627776 \<and>
   right (gameWindow (calculateGameWindow demo ((Game_new demo sim0)\<lparr>world := sim_aside\<rparr>))) -
   left (gameWindow (calculateGameWindow demo ((Game_new demo sim0)\<lparr>world := sim_aside\<rparr>))) =
     7036874417766401 / 8796093022208 \<and>
   right (gameWindow (calculateGameWindow demo ((Game_new demo sim0)\<lparr>world := sim_aside\<rparr>))) -
   left (gameWindow (calculateGameWindow demo ((Game_new demo sim0)\<lparr>world := sim_aside\<rparr>))) \<noteq>
     GAME_WIDTH demo"
proof -
  have half: "js_div 800 2 = 400"
    by (simp add: js_div_def to_double_numeral)
  have "to_double (2017217429615687 / 8796093022208) = 2017217429615687 / 8796093022208"
    by (rule to_double_exact [of _ 2017217429615687 "- 43"]) simp_all
  then have l: "js_sub (5535654638498887 / 8796093022208) 400 = 2017217429615687 / 8796093022208"
    by (simp add: js_sub_def)
  have q: "spacing_exp (9054091847382087 / 8796093022208) = - 42"
    by (rule spacing_exp_eq) simp_all
  have r: "round_half_even (9054091847382087 / 2) = 4527045923691044"
    by (simp add: round_half_even_def Let_def)
  have "to_double (9054091847382087 / 8796093022208) = 1131761480922761 / 1099511627776"
    by (simp add: to_double_def q r)
  then have rt: "js_add (2017217429615687 / 8796093022208) 800 = 1131761480922761 / 1099511627776"
    by (simp add: js_add_def)
  show ?thesis
    by (simp add: calculateGameWindow_eq demo_sel sim_aside_def half l rt)
qed

text \<open>
  C2, amended. For every player position \<open>(x, y)\<close>, the viewport that
  \<open>calculateGameWindow\<close> computes has \<open>left = x - W / 2\<close>, \<open>top = y - H / 2\<close>,
  \<open>right = left + W\<close> and \<open>bottom = top + H\<close>, each operation rounded to the nearest
  double, where \<open>W\<close> and \<open>H\<close> are \<open>GAME_WIDTH\<close> and \<open>GAME_HEIGHT\<close>. So \<open>right - left\<close> and
  \<open>bottom - top\<close> are \<open>W\<close> and \<open>H\<close> up to that rounding: they differ from them by at most
  half the spacing of the doubles at \<open>left + W\<close> and \<open>top + H\<close>. The viewport left by a
  frame that starts in RUNNING is the one computed from the position the skier reports
  when the frame reads it (after the canvas is cleared and the clock sampled, before the
  skier is updated).
\<close>

theorem viewport_rounded:
  "(let p = Skier_getPosition E (skier g) (world g);
        r = gameWindow (calculateGameWindow E g)
    in left r = to_double (pos_x p - to_double (GAME_WIDTH E / 2)) \<and>
       top r = to_double (pos_y p - to_double (GAME_HEIGHT E / 2)) \<and>
       right r = to_double (left r + GAME_WIDTH E) \<and>
       bottom r = to_double (top r + GAME_HEIGHT E) \<and>
       \<bar>right r - left r - GAME_WIDTH E\<bar> \<le> 2 powi spacing_exp (left r + GAME_WIDTH E) / 2 \<and>
       \<bar>bottom r - top r - GAME_HEIGHT E\<bar> \<le> 2 powi spacing_exp (top r + GAME_HEIGHT E) / 2) \<and>
   (gameState g = RUNNING \<longrightarrow>
      gameWindow (run_frame E g) =
        gameWindow (calculateGameWindow E
          (g\<lparr>world := snd (Date_now E (Canvas_clearCanvas E (canvas g) (world g)))\<rparr>)))"
proof -
  obtain now w1 where clock: "Date_now E (Canvas_clearCanvas E (canvas g) (world g)) = (now, w1)"
    by (cases "Date_now E (Canvas_clearCanvas E (canvas g) (world g))")
  have frame: "gameWindow (run_frame E g) = gameWindow (calculateGameWindow E (g\<lparr>world := w1\<rparr>))"
    if "gameState g = RUNNING"
    by (simp add: run_frame_running_fields [OF that clock refl refl])
  have err: "\<bar>to_double (a + b) - a - b\<bar> \<le> 2 powi spacing_exp (a + b) / 2" for a b
    using to_double_error [of "a + b"] by (simp add: algebra_simps)
  show ?thesis
    using frame err
    by (simp add: clock calculateGameWindow_eq Let_def js_add_def js_sub_def js_div_def)
qed

theorem viewport_rounded_witness:
  "gameState (Game_new demo sim0) = RUNNING \<and>
   gameWindow (calculateGameWindow demo (Game_new demo sim0)) =
     \<lparr>left = - 400, top = - 300, right = 400, bottom = 300\<rparr> \<and>
   gameWindow (run_frame demo (Game_new demo sim0)) =
     \<lparr>left = - 400, top = - 300, right = 400, bottom = 300\<rparr>"
proof -
  have running: "gameState (Game_new demo sim0) = RUNNING"
    by (simp add: demo_start)
  have w: "gameWindow (calculateGameWindow demo
      ((Game_new demo sim0)\<lparr>world := snd (Date_now demo (Canvas_clearCanvas demo
         (canvas (Game_new demo sim0)) (world (Game_new demo sim0))))\<rparr>)) =
     \<lparr>left = - 400, top = - 300, right = 400, bottom = 300\<rparr>"
    "gameWindow (calculateGameWindow demo (Game_new demo sim0)) =
     \<lparr>left = - 400, top = - 300, right = 400, bottom = 300\<rparr>"
    unfolding demo_start
    by (simp_all add: calculateGameWindow_eq demo_sel js_add_def js_sub_def js_div_def
        to_double_numeral)
  from viewport_rounded [of demo "Game_new demo sim0", THEN conjunct2] running
  have "gameWindow (run_frame demo (Game_new demo sim0)) =
        gameWindow (calculateGameWindow demo
          ((Game_new demo sim0)\<lparr>world := snd (Date_now demo (Canvas_clearCanvas demo
             (canvas (Game_new demo sim0)) (world (Game_new demo sim0))))\<rparr>))"
    by blast
  with running w show ?thesis by simp
qed

text \<open>
  C3. A frame that starts in RUNNING ends in GAME_OVER exactly when the skier's state is
  the dead value after the skier and the rhino have been updated in that frame. In that
  frame the controller sets \<open>maxScore\<close> to the maximum of \<open>maxScore\<close> and the score the
  frame started with, then sets \<open>score\<close> to 0: the frame is \<open>saveMaxScore\<close>, then
  \<open>resetScore\<close>, then the draws, and \<open>updateScore\<close> is not applied (the maximum is taken
  with the score before the frame, and the frame ends with score 0, not 0.5).
\<close>

theorem death_transition:
  assumes "gameState g = RUNNING"
    and "Date_now E (Canvas_clearCanvas E (canvas g) (world g)) = (now, w1)"
    and "win = gameWindow (calculateGameWindow E (g\<lparr>world := w1\<rparr>))"
    and "w4 = Rhino_update E (rhino g) now (skier g)
               (Skier_update E (skier g) now
                  (ObstacleManager_placeNewObstacle E (obstacleManager g) win (gameWindow g) w1))"
  shows "(gameState (run_frame E g) = GAME_OVER) = (Skier_state E (skier g) w4 = STATE_DEAD E) \<and>
         (Skier_state E (skier g) w4 = STATE_DEAD E \<longrightarrow>
            maxScore (run_frame E g) = max (maxScore g) (score g) \<and>
            score (run_frame E g) = 0 \<and>
            run_frame E g =
              drawGameWindow E (resetScore (saveMaxScore
                (g\<lparr>gameWindow := win, gameTime := now, gameState := GAME_OVER, world := w4,
                   trace := trace g @
                     [ClearCanvas (canvas g), DateNow now, SkierGetPosition (skier g),
                      PlaceNewObstacle (obstacleManager g) win (gameWindow g),
                      SkierUpdate (skier g) now, RhinoUpdate (rhino g) now (skier g)]\<rparr>))))"
proof -
  note f = run_frame_running_fields [OF assms]
  have a: "(gameState (run_frame E g) = GAME_OVER) = (Skier_state E (skier g) w4 = STATE_DEAD E)"
    by (simp add: f)
  have b: "maxScore (run_frame E g) = max (maxScore g) (score g) \<and> score (run_frame E g) = 0"
    if "Skier_state E (skier g) w4 = STATE_DEAD E"
    using that by (simp add: f max.commute)
  have c: "run_frame E g =
      drawGameWindow E (resetScore (saveMaxScore
        (g\<lparr>gameWindow := win, gameTime := now, gameState := GAME_OVER, world := w4,
           trace := trace g @
             [ClearCanvas (canvas g), DateNow now, SkierGetPosition (skier g),
              PlaceNewObstacle (obstacleManager g) win (gameWindow g),
              SkierUpdate (skier g) now, RhinoUpdate (rhino g) now (skier g)]\<rparr>)))"
    if "Skier_state E (skier g) w4 = STATE_DEAD E"
    using that run_frame_running [OF assms(1-3) refl refl assms(4) refl] by simp
  show ?thesis
    using a b c by blast
qed

theorem death_transition_witness:
  "gameState (exec demo (Game_new demo sim0) [Frame, Frame]) = RUNNING \<and>
   score (exec demo (Game_new demo sim0) [Frame, Frame]) = 1 \<and>
   maxScore (exec demo (Game_new demo sim0) [Frame, Frame]) = 0 \<and>
   gameState (run_frame demo (exec demo (Game_new demo sim0) [Frame, Frame])) = GAME_OVER \<and>
   maxScore (run_frame demo (exec demo (Game_new demo sim0) [Frame, Frame])) = 1 \<and>
   score (run_frame demo (exec demo (Game_new demo sim0) [Frame, Frame])) = 0"
proof -
  define g where "g = exec demo (Game_new demo sim0) [Frame, Frame]"
  have g: "canvas g = 1" "skier g = 4" "rhino g = 5" "obstacleManager g = 3"
    "gameState g = RUNNING" "score g = 1" "maxScore g = 0"
    "world g = \<lparr>sim_clock = 1048, sim_objects = 5, sim_position = \<lparr>pos_x = 0, pos_y = 20\<rparr>,
                sim_state = ''skiing''\<rparr>"
    unfolding g_def demo_frame2 by simp_all
  have clock: "Date_now demo (Canvas_clearCanvas demo (canvas g) (world g)) =
      (1048, \<lparr>sim_clock = 1064, sim_objects = 5, sim_position = \<lparr>pos_x = 0, pos_y = 20\<rparr>,
                sim_state = ''skiing''\<rparr>)"
    by (simp add: g demo_sel)
  have dead: "Skier_state demo (skier g)
      (Rhino_update demo (rhino g) 1048 (skier g)
        (Skier_update demo (skier g) 1048
          (ObstacleManager_placeNewObstacle demo (obstacleManager g)
             (gameWindow (calculateGameWindow demo (g\<lparr>world :=
                \<lparr>sim_clock = 1064, sim_objects = 5, sim_position = \<lparr>pos_x = 0, pos_y = 20\<rparr>,
                 sim_state = ''skiing''\<rparr>\<rparr>))) (gameWindow g)
             \<lparr>sim_clock = 1064, sim_objects = 5, sim_position = \<lparr>pos_x = 0, pos_y = 20\<rparr>,
                sim_state = ''skiing''\<rparr>))) = STATE_DEAD demo"
    by (simp add: demo_sel)
  from death_transition [OF g(5) clock refl refl] dead
  have "gameState (run_frame demo g) = GAME_OVER \<and>
        maxScore (run_frame demo g) = max (maxScore g) (score g) \<and>
        score (run_frame demo g) = 0"
    by blast
  then show ?thesis
    using g(5-7) unfolding g_def [symmetric] by simp
qed

text \<open>
  C4. For every \<open>N\<close> consecutive frames through which the state stays RUNNING (the skier
  does not die in any of them), the score after the \<open>N\<close> frames is the score before them
  plus \<open>N\<close> times 0.5, and \<open>maxScore\<close> is unchanged.
\<close>

theorem score_accrual:
  assumes "\<forall>k\<le>n. gameState (run E k g) = RUNNING"
  shows "score (run E n g) = score g + real n * 0.5 \<and> maxScore (run E n g) = maxScore g"
  using assms
proof (induction n arbitrary: g)
  case 0
  then show ?case by simp
next
  case (Suc n)
  from Suc.prems have "gameState (run E 0 g) = RUNNING" by blast
  then have running: "gameState g = RUNNING" by simp
  from Suc.prems have "gameState (run E (Suc 0) g) = RUNNING" by (metis Suc_le_mono le0)
  then have alive: "gameState (run_frame E g) = RUNNING" by simp
  have later: "\<forall>k\<le>n. gameState (run E k (run_frame E g)) = RUNNING"
  proof (intro allI impI)
    fix k assume "k \<le> n"
    then have "Suc k \<le> Suc n" by simp
    with Suc.prems have "gameState (run E (Suc k) g) = RUNNING" by blast
    then show "gameState (run E k (run_frame E g)) = RUNNING" by simp
  qed
  from Suc.IH [OF later] run_frame_alive [OF running alive]
  show ?case by (simp add: algebra_simps)
qed

theorem score_accrual_witness:
  "gameState (run demo 0 (Game_new demo sim0)) = RUNNING \<and>
   gameState (run demo 1 (Game_new demo sim0)) = RUNNING \<and>
   gameState (run demo 2 (Game_new demo sim0)) = RUNNING \<and>
   score (run demo 2 (Game_new demo sim0)) = 1 \<and>
   maxScore (run demo 2 (Game_new demo sim0)) = 0"
proof -
  have r0: "run demo 0 (Game_new demo sim0) = Game_new demo sim0"
    by simp
  have r1: "run demo 1 (Game_new demo sim0) = run_frame demo (Game_new demo sim0)"
    by simp
  have r2: "run demo 2 (Game_new demo sim0) = exec demo (Game_new demo sim0) [Frame, Frame]"
    by (simp add: numeral_2_eq_2)
  have s0: "gameState (run demo 0 (Game_new demo sim0)) = RUNNING"
    unfolding r0 demo_start by simp
  have s1: "gameState (run demo 1 (Game_new demo sim0)) = RUNNING"
    unfolding r1 demo_frame1 by simp
  have s2: "gameState (run demo 2 (Game_new demo sim0)) = RUNNING"
    unfolding r2 demo_frame2 by simp
  have alive: "\<forall>k\<le>2. gameState (run demo k (Game_new demo sim0)) = RUNNING"
  proof (intro allI impI)
    fix k :: nat assume "k \<le> 2"
    then consider "k = 0" | "k = 1" | "k = 2" by linarith
    then show "gameState (run demo k (Game_new demo sim0)) = RUNNING"
      using s0 s1 s2 by cases blast+
  qed
  have start: "score (Game_new demo sim0) = 0" "maxScore (Game_new demo sim0) = 0"
    by (simp_all add: fields_of_demo_start)
  have "score (run demo 2 (Game_new demo sim0)) = 1 \<and>
        maxScore (run demo 2 (Game_new demo sim0)) = 0"
    using score_accrual [OF alive] by (simp add: start)
  with s0 s1 s2 show ?thesis by blast
qed

text \<open>
  C5, as stated, fails: after the first frame of the concrete instance, a reachable
  state, the score of the run in progress is 0.5 and \<open>maxScore\<close> is still 0.
  \<open>maxScore\<close> is written only at the death transition.
\<close>

theorem maxScore_bounds_current_run_counterexample:
  "reachable demo sim0 (run_frame demo (Game_new demo sim0)) \<and>
   score (run_frame demo (Game_new demo sim0)) = 1 / 2 \<and>
   maxScore (run_frame demo (Game_new demo sim0)) = 0 \<and>
   \<not> score (run_frame demo (Game_new demo sim0)) \<le> maxScore (run_frame demo (Game_new demo sim0))"
proof -
  have "run_frame demo (Game_new demo sim0) = exec demo (Game_new demo sim0) [Frame]"
    by simp
  then have "reachable demo sim0 (run_frame demo (Game_new demo sim0))"
    unfolding reachable_def by blast
  then show ?thesis
    unfolding demo_frame1 by simp
qed

text \<open>
  C5, amended. At every reachable state, every value the score has held since the
  controller was constructed is at most the larger of \<open>maxScore\<close> and the current score:
  \<open>maxScore\<close> bounds the scores of the runs that have ended, and the score of the run in
  progress is its own largest value. In state GAME_OVER, \<open>maxScore\<close> is at least every
  value the score has ever held.
\<close>

theorem score_history_bounded:
  assumes "h \<in> set (states E (Game_new E w) ins)"
  shows "score h \<le> max (maxScore (exec E (Game_new E w) ins)) (score (exec E (Game_new E w) ins)) \<and>
         (gameState (exec E (Game_new E w) ins) = GAME_OVER \<longrightarrow>
            score h \<le> maxScore (exec E (Game_new E w) ins))"
proof -
  have "reachable E w (exec E (Game_new E w) ins)"
    unfolding reachable_def by blast
  from reachable_invariant [OF this] states_bound [OF assms]
  show ?thesis by auto
qed


theorem score_history_bounded_witness:
  "run_frame demo (Game_new demo sim0) \<in>
     set (states demo (Game_new demo sim0) [Frame, Frame, Frame]) \<and>
   gameState (exec demo (Game_new demo sim0) [Frame, Frame, Frame]) = GAME_OVER \<and>
   score (run_frame demo (Game_new demo sim0)) = 1 / 2 \<and>
   maxScore (exec demo (Game_new demo sim0) [Frame, Frame, Frame]) = 1 \<and>
   score (run_frame demo (Game_new demo sim0)) \<le>
     maxScore (exec demo (Game_new demo sim0) [Frame, Frame, Frame])"
proof -
  have visited: "run_frame demo (Game_new demo sim0) \<in>
      set (states demo (Game_new demo sim0) [Frame, Frame, Frame])"
    by simp
  have over: "gameState (exec demo (Game_new demo sim0) [Frame, Frame, Frame]) = GAME_OVER"
    "maxScore (exec demo (Game_new demo sim0) [Frame, Frame, Frame]) = 1"
    unfolding demo_frame3 by simp_all
  have half: "score (run_frame demo (Game_new demo sim0)) = 1 / 2"
    unfolding demo_frame1 by simp
  from score_history_bounded [OF visited] over(1)
  have "score (run_frame demo (Game_new demo sim0)) \<le>
     maxScore (exec demo (Game_new demo sim0) [Frame, Frame, Frame])"
    by blast
  with visited over half show ?thesis by blast
qed

text \<open>
  C6. \<open>Skier.handleInput\<close> is not under src/; the claim is settled for every collaborator
  that keeps the spec's dead state: drawing leaves a dead skier dead, and the input
  handler of a dead skier changes nothing in the store. From a reachable GAME_OVER state,
  only the Enter key leads to RUNNING: every other key event and every frame leave the
  state at GAME_OVER and \<open>score\<close> and \<open>maxScore\<close> as they are. A frame makes the two text
  draws and no other call, and changes no field of the controller. A key other than
  Enter is forwarded to the skier's \<open>handleInput\<close> (followed by \<open>preventDefault\<close> if the
  skier reports it handled); the store of the entities and every field of the controller
  stay as they are.
\<close>

theorem game_over_closure:
  assumes "dead_is_terminal E" and "dead_skier_ignores_input E"
    and "reachable E w g" and "gameState g = GAME_OVER"
  shows "(gameState (step E g i) = RUNNING) = (i = KeyDown ''Enter'') \<and>
         score (step E g i) = score g \<and> maxScore (step E g i) = maxScore g \<and>
         run_frame E g =
           g\<lparr>world := Canvas_drawText E (canvas g) ''Press Enter to restart''
                       (GAME_WIDTH E / 2 - 110) (GAME_HEIGHT E / 2 + 40) ''20px Roboto'' ''green''
                       (Canvas_drawText E (canvas g) ''Game Over!'' (GAME_WIDTH E / 2 - 100)
                          (GAME_HEIGHT E / 2) ''30px Roboto'' ''red'' (world g)),
             trace := trace g @
               [DrawText (canvas g) ''Game Over!'' (GAME_WIDTH E / 2 - 100) (GAME_HEIGHT E / 2)
                  ''30px Roboto'' ''red'',
                DrawText (canvas g) ''Press Enter to restart'' (GAME_WIDTH E / 2 - 110)
                  (GAME_HEIGHT E / 2 + 40) ''20px Roboto'' ''green'']\<rparr> \<and>
         (key \<noteq> ''Enter'' \<longrightarrow>
            handleKeyDown E key g =
              g\<lparr>trace := trace g @ SkierHandleInput (skier g) key #
                  (if fst (Skier_handleInput E (skier g) key (world g)) then [PreventDefault]
                   else [])\<rparr>)"
proof -
  have dead: "Skier_state E (skier g) (world g) = STATE_DEAD E"
    using assms by (rule reachable_dead)
  with assms(2) have same: "snd (Skier_handleInput E (skier g) k (world g)) = world g" for k
    by (simp add: dead_skier_ignores_input_def)
  have frame: "run_frame E g =
           g\<lparr>world := Canvas_drawText E (canvas g) ''Press Enter to restart''
                       (GAME_WIDTH E / 2 - 110) (GAME_HEIGHT E / 2 + 40) ''20px Roboto'' ''green''
                       (Canvas_drawText E (canvas g) ''Game Over!'' (GAME_WIDTH E / 2 - 100)
                          (GAME_HEIGHT E / 2) ''30px Roboto'' ''red'' (world g)),
             trace := trace g @
               [DrawText (canvas g) ''Game Over!'' (GAME_WIDTH E / 2 - 100) (GAME_HEIGHT E / 2)
                  ''30px Roboto'' ''red'',
                DrawText (canvas g) ''Press Enter to restart'' (GAME_WIDTH E / 2 - 110)
                  (GAME_HEIGHT E / 2 + 40) ''20px Roboto'' ''green'']\<rparr>"
    using assms(4) by (simp add: run_frame_game_over drawGameOver_eq)
  have key: "handleKeyDown E k g =
              g\<lparr>trace := trace g @ SkierHandleInput (skier g) k #
                  (if fst (Skier_handleInput E (skier g) k (world g)) then [PreventDefault]
                   else [])\<rparr>" if "k \<noteq> ''Enter''" for k
    using that by (simp add: handleKeyDown_forward same)
  have enter: "gameState (handleKeyDown E ''Enter'' g) = RUNNING"
    using assms(4) by (simp add: handleKeyDown_restart init_fields)
  have st: "(gameState (step E g i) = RUNNING) = (i = KeyDown ''Enter'')"
  proof (cases i)
    case Frame
    then show ?thesis using assms(4) by (simp add: frame)
  next
    case (KeyDown k)
    then show ?thesis using assms(4) enter by (cases "k = ''Enter''") (simp_all add: key)
  qed
  have sc: "score (step E g i) = score g \<and> maxScore (step E g i) = maxScore g"
  proof (cases i)
    case Frame
    then show ?thesis by (simp add: frame)
  next
    case (KeyDown k)
    then show ?thesis using handleKeyDown_scores [of E k g] by simp
  qed
  show ?thesis
    using st sc frame key [of key] by blast
qed

theorem game_over_closure_witness:
  "reachable demo sim0 (exec demo (Game_new demo sim0) [Frame, Frame, Frame]) \<and>
   gameState (exec demo (Game_new demo sim0) [Frame, Frame, Frame]) = GAME_OVER \<and>
   ''ArrowLeft'' \<noteq> ''Enter'' \<and>
   gameState (handleKeyDown demo ''ArrowLeft''
     (exec demo (Game_new demo sim0) [Frame, Frame, Frame])) = GAME_OVER \<and>
   world (handleKeyDown demo ''ArrowLeft''
     (exec demo (Game_new demo sim0) [Frame, Frame, Frame])) =
     world (exec demo (Game_new demo sim0) [Frame, Frame, Frame]) \<and>
   score (handleKeyDown demo ''ArrowLeft''
     (exec demo (Game_new demo sim0) [Frame, Frame, Frame])) = 0 \<and>
   maxScore (handleKeyDown demo ''ArrowLeft''
     (exec demo (Game_new demo sim0) [Frame, Frame, Frame])) = 1 \<and>
   gameState (run_frame demo (exec demo (Game_new demo sim0) [Frame, Frame, Frame])) = GAME_OVER"
proof -
  define g where "g = exec demo (Game_new demo sim0) [Frame, Frame, Frame]"
  have terminal: "dead_is_terminal demo"
    by (simp add: dead_is_terminal_def demo_sel)
  have ignores: "dead_skier_ignores_input demo"
    by (simp add: dead_skier_ignores_input_def demo_sel)
  have reach: "reachable demo sim0 g"
    unfolding g_def reachable_def by blast
  have g: "gameState g = GAME_OVER" "score g = 0" "maxScore g = 1"
    unfolding g_def demo_frame3 by simp_all
  note closure = game_over_closure [OF terminal ignores reach g(1)]
  have key: "gameState (step demo g (KeyDown ''ArrowLeft'')) \<noteq> RUNNING \<and>
    score (step demo g (KeyDown ''ArrowLeft'')) = score g \<and>
    maxScore (step demo g (KeyDown ''ArrowLeft'')) = maxScore g"
    using closure [of "KeyDown ''ArrowLeft''" "''ArrowLeft''"] g(1) by simp
  have "handleKeyDown demo ''ArrowLeft'' g =
      g\<lparr>trace := trace g @ SkierHandleInput (skier g) ''ArrowLeft'' #
          (if fst (Skier_handleInput demo (skier g) ''ArrowLeft'' (world g))
           then [PreventDefault] else [])\<rparr>"
    using closure [of Frame "''ArrowLeft''"] by simp
  then have store: "world (handleKeyDown demo ''ArrowLeft'' g) = world g"
    by simp
  have frame: "gameState (step demo g Frame) \<noteq> RUNNING"
    using closure [of Frame "''ArrowLeft''"] by blast
  have "s = GAME_OVER" if "s \<noteq> RUNNING" for s
    using that by (cases s) simp_all
  with key frame store reach g show ?thesis
    unfolding g_def [symmetric] by simp
qed

text \<open>
  C7. After a restart (Enter pressed in GAME_OVER, at any reachable state) the state is
  RUNNING, the score is 0 and \<open>maxScore\<close> keeps its value. The image manager is the
  object it was before: the field is unchanged and no image manager is constructed. The
  canvas, the obstacle manager, the skier and the rhino are the objects that the four
  constructors return, the skier constructed at the fixed origin \<open>(0, 0)\<close> with the image
  manager, the new obstacle manager and the new canvas; the store is the one the
  constructors leave; and the viewport is the one \<open>calculateGameWindow\<close> computes from
  the position the new skier reports in that store (centred on it, in double
  arithmetic).
\<close>

theorem restart_reinitialises:
  assumes "reachable E w g" and "gameState g = GAME_OVER"
  shows "case imageManager g of
           None \<Rightarrow> False
         | Some im \<Rightarrow>
             (let (cv, w1) = Canvas_new E (GAME_CANVAS E) (GAME_WIDTH E) (GAME_HEIGHT E) (world g);
                  (om, w3) = ObstacleManager_new E im cv w1;
                  w4 = ObstacleManager_placeInitialObstacles E om w3;
                  (sk, w5) = Skier_new E 0 0 im om cv w4;
                  (rh, w6) = Rhino_new E (- 500) (- 2000) im cv w5;
                  p = Skier_getPosition E sk w6;
                  l = to_double (pos_x p - to_double (GAME_WIDTH E / 2));
                  t = to_double (pos_y p - to_double (GAME_HEIGHT E / 2))
              in handleKeyDown E ''Enter'' g =
                   g\<lparr>canvas := cv,
                     gameWindow := \<lparr>left = l, top = t, right = to_double (l + GAME_WIDTH E),
                                     bottom = to_double (t + GAME_HEIGHT E)\<rparr>,
                     obstacleManager := om, skier := sk, rhino := rh, gameState := RUNNING,
                     world := w6,
                     trace := trace g @
                       [NewCanvas (GAME_CANVAS E) (GAME_WIDTH E) (GAME_HEIGHT E),
                        NewObstacleManager im cv, PlaceInitialObstacles om,
                        NewSkier 0 0 im om cv, NewRhino (- 500) (- 2000) im cv,
                        SkierGetPosition sk, PreventDefault]\<rparr> \<and>
                 gameState (handleKeyDown E ''Enter'' g) = RUNNING \<and>
                 score (handleKeyDown E ''Enter'' g) = 0 \<and>
                 maxScore (handleKeyDown E ''Enter'' g) = maxScore g \<and>
                 imageManager (handleKeyDown E ''Enter'' g) = Some im \<and>
                 skier (handleKeyDown E ''Enter'' g) = sk \<and>
                 gameWindow (handleKeyDown E ''Enter'' g) =
                   gameWindow (calculateGameWindow E (handleKeyDown E ''Enter'' g)))"
proof -
  from reachable_invariant [OF assms(1)] assms(2)
  obtain im where im: "imageManager g = Some im" and zero: "score g = 0"
    by auto
  obtain cv w1 where cv: "Canvas_new E (GAME_CANVAS E) (GAME_WIDTH E) (GAME_HEIGHT E) (world g) = (cv, w1)"
    by (cases "Canvas_new E (GAME_CANVAS E) (GAME_WIDTH E) (GAME_HEIGHT E) (world g)")
  obtain om w3 where om: "ObstacleManager_new E im cv w1 = (om, w3)"
    by (cases "ObstacleManager_new E im cv w1")
  obtain sk w5 where sk: "Skier_new E 0 0 im om cv (ObstacleManager_placeInitialObstacles E om w3) = (sk, w5)"
    by (cases "Skier_new E 0 0 im om cv (ObstacleManager_placeInitialObstacles E om w3)")
  obtain rh w6 where rh: "Rhino_new E (- 500) (- 2000) im cv w5 = (rh, w6)"
    by (cases "Rhino_new E (- 500) (- 2000) im cv w5")
  have "imageManager g = Some im \<and> w1 = w1 \<and> [] = [] \<or>
        imageManager g = None \<and> ImageManager_new E w1 = (im, w1) \<and> [] = [NewImageManager]"
    using im by simp
  note eq = init_eq [OF cv this om refl sk rh refl refl]
  have restart: "handleKeyDown E ''Enter'' g =
      (init E g)\<lparr>trace := trace (init E g) @ [PreventDefault]\<rparr>"
    using assms(2) by (rule handleKeyDown_restart)
  have state: "handleKeyDown E ''Enter'' g =
      g\<lparr>canvas := cv,
        gameWindow :=
          \<lparr>left = to_double (pos_x (Skier_getPosition E sk w6) - to_double (GAME_WIDTH E / 2)),
           top = to_double (pos_y (Skier_getPosition E sk w6) - to_double (GAME_HEIGHT E / 2)),
           right = to_double (to_double (pos_x (Skier_getPosition E sk w6) -
                      to_double (GAME_WIDTH E / 2)) + GAME_WIDTH E),
           bottom = to_double (to_double (pos_y (Skier_getPosition E sk w6) -
                      to_double (GAME_HEIGHT E / 2)) + GAME_HEIGHT E)\<rparr>,
        obstacleManager := om, skier := sk, rhino := rh, gameState := RUNNING, world := w6,
        trace := trace g @
          [NewCanvas (GAME_CANVAS E) (GAME_WIDTH E) (GAME_HEIGHT E),
           NewObstacleManager im cv, PlaceInitialObstacles om,
           NewSkier 0 0 im om cv, NewRhino (- 500) (- 2000) im cv,
           SkierGetPosition sk, PreventDefault]\<rparr>"
    unfolding restart eq
    by (simp add: im calculateGameWindow_eq js_add_def js_sub_def js_div_def)
  have rest: "gameState (handleKeyDown E ''Enter'' g) = RUNNING \<and>
      score (handleKeyDown E ''Enter'' g) = 0 \<and>
      maxScore (handleKeyDown E ''Enter'' g) = maxScore g \<and>
      imageManager (handleKeyDown E ''Enter'' g) = Some im \<and>
      skier (handleKeyDown E ''Enter'' g) = sk \<and>
      gameWindow (handleKeyDown E ''Enter'' g) =
        gameWindow (calculateGameWindow E (handleKeyDown E ''Enter'' g))"
    unfolding state
    by (simp add: im zero calculateGameWindow_eq js_add_def js_sub_def js_div_def)
  show ?thesis
    using state rest by (simp add: im cv om sk rh Let_def)
qed


theorem restart_reinitialises_witness:
  "reachable demo sim0 (exec demo (Game_new demo sim0) [Frame, Frame, Frame]) \<and>
   gameState (exec demo (Game_new demo sim0) [Frame, Frame, Frame]) = GAME_OVER \<and>
   imageManager (exec demo (Game_new demo sim0) [Frame, Frame, Frame]) = Some 2 \<and>
   skier (exec demo (Game_new demo sim0) [Frame, Frame, Frame]) = 4 \<and>
   gameState (handleKeyDown demo ''Enter''
     (exec demo (Game_new demo sim0) [Frame, Frame, Frame])) = RUNNING \<and>
   score (handleKeyDown demo ''Enter''
     (exec demo (Game_new demo sim0) [Frame, Frame, Frame])) = 0 \<and>
   maxScore (handleKeyDown demo ''Enter''
     (exec demo (Game_new demo sim0) [Frame, Frame, Frame])) = 1 \<and>
   imageManager (handleKeyDown demo ''Enter''
     (exec demo (Game_new demo sim0) [Frame, Frame, Frame])) = Some 2 \<and>
   skier (handleKeyDown demo ''Enter''
     (exec demo (Game_new demo sim0) [Frame, Frame, Frame])) = 8 \<and>
   world (handleKeyDown demo ''Enter''
     (exec demo (Game_new demo sim0) [Frame, Frame, Frame])) =
     \<lparr>sim_clock = 1064, sim_objects = 9, sim_position = \<lparr>pos_x = 0, pos_y = 0\<rparr>,
      sim_state = ''skiing''\<rparr> \<and>
   gameWindow (handleKeyDown demo ''Enter''
     (exec demo (Game_new demo sim0) [Frame, Frame, Frame])) =
     \<lparr>left = - 400, top = - 300, right = 400, bottom = 300\<rparr>"
proof -
  define g where "g = exec demo (Game_new demo sim0) [Frame, Frame, Frame]"
  have reach: "reachable demo sim0 g"
    unfolding g_def reachable_def by blast
  have g: "gameState g = GAME_OVER" "imageManager g = Some 2" "skier g = 4" "maxScore g = 1" "score g = 0"
    "world g = \<lparr>sim_clock = 1064, sim_objects = 5, sim_position = \<lparr>pos_x = 0, pos_y = 30\<rparr>,
                sim_state = ''dead''\<rparr>"
    unfolding g_def demo_frame3 by simp_all
  have "gameState (handleKeyDown demo ''Enter'' g) = RUNNING \<and>
        score (handleKeyDown demo ''Enter'' g) = 0 \<and>
        maxScore (handleKeyDown demo ''Enter'' g) = 1 \<and>
        imageManager (handleKeyDown demo ''Enter'' g) = Some 2 \<and>
        skier (handleKeyDown demo ''Enter'' g) = 8 \<and>
        world (handleKeyDown demo ''Enter'' g) =
          \<lparr>sim_clock = 1064, sim_objects = 9, sim_position = \<lparr>pos_x = 0, pos_y = 0\<rparr>,
           sim_state = ''skiing''\<rparr> \<and>
        gameWindow (handleKeyDown demo ''Enter'' g) =
          \<lparr>left = - 400, top = - 300, right = 400, bottom = 300\<rparr>"
    using restart_reinitialises [OF reach g(1)]
    by (simp add: g demo_sel alloc_def Let_def to_double_numeral)
  with reach g show ?thesis
    unfolding g_def [symmetric] by simp
qed

text \<open>
  C8. In every frame that starts in RUNNING the clock is sampled exactly once, and the
  calls up to the draws are, in this order: clear the canvas, sample the clock, read the
  skier's position (the viewport is recomputed from it), reconcile the obstacles with the
  new viewport against the previous one, update the skier, update the rhino with the
  skier. The skier and the rhino both receive the timestamp that was sampled, which is
  also the frame's \<open>gameTime\<close>. The calls are made on the store in that order: the store
  after the update is the rhino's update of the skier's update of the reconciliation of
  the store the clock sample left, and the frame is the draws of the state so updated.
\<close>

theorem frame_update_order:
  assumes "gameState g = RUNNING"
    and "Date_now E (Canvas_clearCanvas E (canvas g) (world g)) = (now, w1)"
    and "win = gameWindow (calculateGameWindow E (g\<lparr>world := w1\<rparr>))"
    and "w4 = Rhino_update E (rhino g) now (skier g)
               (Skier_update E (skier g) now
                  (ObstacleManager_placeNewObstacle E (obstacleManager g) win (gameWindow g) w1))"
  shows "(\<exists>draws.
           trace (run_frame E g) =
             trace g @
             [ClearCanvas (canvas g), DateNow now, SkierGetPosition (skier g),
              PlaceNewObstacle (obstacleManager g) win (gameWindow g),
              SkierUpdate (skier g) now, RhinoUpdate (rhino g) now (skier g)] @ draws \<and>
           clock_samples draws = [] \<and>
           clock_samples (drop (length (trace g)) (trace (run_frame E g))) = [now] \<and>
           gameTime (run_frame E g) = now \<and> gameWindow (run_frame E g) = win) \<and>
         world (updateGameWindow E
                  (call (ClearCanvas (canvas g)) (Canvas_clearCanvas E (canvas g)) g)) = w4 \<and>
         run_frame E g =
           drawGameWindow E
             (if Skier_state E (skier g) w4 = STATE_DEAD E
              then resetScore (saveMaxScore
                     (g\<lparr>gameWindow := win, gameTime := now, gameState := GAME_OVER,
                        world := w4,
                        trace := trace g @
                          [ClearCanvas (canvas g), DateNow now, SkierGetPosition (skier g),
                           PlaceNewObstacle (obstacleManager g) win (gameWindow g),
                           SkierUpdate (skier g) now, RhinoUpdate (rhino g) now (skier g)]\<rparr>))
              else updateScore
                     (g\<lparr>gameWindow := win, gameTime := now, world := w4,
                        trace := trace g @
                          [ClearCanvas (canvas g), DateNow now, SkierGetPosition (skier g),
                           PlaceNewObstacle (obstacleManager g) win (gameWindow g),
                           SkierUpdate (skier g) now, RhinoUpdate (rhino g) now (skier g)]\<rparr>))"
proof -
  have a: "\<exists>draws.
           trace (run_frame E g) =
             trace g @
             [ClearCanvas (canvas g), DateNow now, SkierGetPosition (skier g),
              PlaceNewObstacle (obstacleManager g) win (gameWindow g),
              SkierUpdate (skier g) now, RhinoUpdate (rhino g) now (skier g)] @ draws \<and>
           clock_samples draws = [] \<and>
           clock_samples (drop (length (trace g)) (trace (run_frame E g))) = [now] \<and>
           gameTime (run_frame E g) = now \<and> gameWindow (run_frame E g) = win"
    by (simp add: run_frame_running_fields [OF assms(1-3) refl])
  have b: "world (updateGameWindow E
                  (call (ClearCanvas (canvas g)) (Canvas_clearCanvas E (canvas g)) g)) = w4"
    by (simp add: updateGameWindow_after_clear [OF assms(2-4) refl] saveMaxScore_def
        resetScore_def updateScore_def)
  note c = run_frame_running [OF assms(1-3) refl refl assms(4) refl]
  from a b c show ?thesis by blast
qed

theorem frame_update_order_witness:
  "gameState (Game_new demo sim0) = RUNNING \<and>
   Date_now demo (Canvas_clearCanvas demo (canvas (Game_new demo sim0))
     (world (Game_new demo sim0))) =
     (1016, \<lparr>sim_clock = 1032, sim_objects = 5, sim_position = \<lparr>pos_x = 0, pos_y = 0\<rparr>,
              sim_state = ''skiing''\<rparr>) \<and>
   clock_samples (drop (length (trace (Game_new demo sim0)))
     (trace (run_frame demo (Game_new demo sim0)))) = [1016] \<and>
   gameTime (run_frame demo (Game_new demo sim0)) = 1016 \<and>
   world (updateGameWindow demo
     (call (ClearCanvas (canvas (Game_new demo sim0)))
        (Canvas_clearCanvas demo (canvas (Game_new demo sim0))) (Game_new demo sim0))) =
     \<lparr>sim_clock = 1032, sim_objects = 5, sim_position = \<lparr>pos_x = 0, pos_y = 10\<rparr>,
      sim_state = ''skiing''\<rparr>"
proof -
  have running: "gameState (Game_new demo sim0) = RUNNING"
    by (simp add: demo_start)
  have clock: "Date_now demo (Canvas_clearCanvas demo (canvas (Game_new demo sim0))
     (world (Game_new demo sim0))) =
     (1016, \<lparr>sim_clock = 1032, sim_objects = 5, sim_position = \<lparr>pos_x = 0, pos_y = 0\<rparr>,
              sim_state = ''skiing''\<rparr>)"
    by (simp add: demo_start demo_sel)
  have w4: "Rhino_update demo (rhino (Game_new demo sim0)) 1016 (skier (Game_new demo sim0))
      (Skier_update demo (skier (Game_new demo sim0)) 1016
         (ObstacleManager_placeNewObstacle demo (obstacleManager (Game_new demo sim0))
            (gameWindow (calculateGameWindow demo ((Game_new demo sim0)\<lparr>world :=
               \<lparr>sim_clock = 1032, sim_objects = 5, sim_position = \<lparr>pos_x = 0, pos_y = 0\<rparr>,
                sim_state = ''skiing''\<rparr>\<rparr>)))
            (gameWindow (Game_new demo sim0))
            \<lparr>sim_clock = 1032, sim_objects = 5, sim_position = \<lparr>pos_x = 0, pos_y = 0\<rparr>,
             sim_state = ''skiing''\<rparr>)) =
     \<lparr>sim_clock = 1032, sim_objects = 5, sim_position = \<lparr>pos_x = 0, pos_y = 10\<rparr>,
      sim_state = ''skiing''\<rparr>"
    by (simp add: demo_sel)
  from frame_update_order [OF running clock refl refl]
  have "clock_samples (drop (length (trace (Game_new demo sim0)))
     (trace (run_frame demo (Game_new demo sim0)))) = [1016] \<and>
   gameTime (run_frame demo (Game_new demo sim0)) = 1016 \<and>
   world (updateGameWindow demo
     (call (ClearCanvas (canvas (Game_new demo sim0)))
        (Canvas_clearCanvas demo (canvas (Game_new demo sim0))) (Game_new demo sim0))) =
     Rhino_update demo (rhino (Game_new demo sim0)) 1016 (skier (Game_new demo sim0))
      (Skier_update demo (skier (Game_new demo sim0)) 1016
         (ObstacleManager_placeNewObstacle demo (obstacleManager (Game_new demo sim0))
            (gameWindow (calculateGameWindow demo ((Game_new demo sim0)\<lparr>world :=
               \<lparr>sim_clock = 1032, sim_objects = 5, sim_position = \<lparr>pos_x = 0, pos_y = 0\<rparr>,
                sim_state = ''skiing''\<rparr>\<rparr>)))
            (gameWindow (Game_new demo sim0))
            \<lparr>sim_clock = 1032, sim_objects = 5, sim_position = \<lparr>pos_x = 0, pos_y = 0\<rparr>,
             sim_state = ''skiing''\<rparr>))"
    by blast
  with running clock show ?thesis
    by (simp only: w4) 
qed

text \<open>
  C9. No operation of the controller decreases \<open>maxScore\<close>: not \<open>saveMaxScore\<close>,
  \<open>updateScore\<close> or \<open>resetScore\<close>, not the update of a frame or the frame itself
  (death transition included), not \<open>init\<close>, a restart or any key event, and hence no
  sequence of frames and key events.
\<close>

theorem maxScore_never_decreases:
  "maxScore g \<le> maxScore (saveMaxScore g) \<and>
   maxScore (updateScore g) = maxScore g \<and>
   maxScore (resetScore g) = maxScore g \<and>
   maxScore g \<le> maxScore (updateGameWindow E g) \<and>
   maxScore g \<le> maxScore (run_frame E g) \<and>
   maxScore (init E g) = maxScore g \<and>
   maxScore (restartGame E g) = maxScore g \<and>
   maxScore (handleKeyDown E key g) = maxScore g \<and>
   maxScore g \<le> maxScore (step E g i) \<and>
   maxScore g \<le> maxScore (exec E g ins) \<and>
   maxScore g \<le> maxScore (run E n g)"
proof -
  obtain now w1 where clock: "Date_now E (world g) = (now, w1)"
    by (cases "Date_now E (world g)")
  have upd: "maxScore g \<le> maxScore (updateGameWindow E g)"
    by (simp add: updateGameWindow_eq [OF clock refl refl refl refl refl] saveMaxScore_def
        resetScore_def updateScore_def)
  have ex: "maxScore g \<le> maxScore (exec E g ins)" for ins
  proof (induction ins arbitrary: g)
    case Nil
    show ?case by simp
  next
    case (Cons i ins)
    have "maxScore g \<le> maxScore (step E g i)"
      using step_scores [of g E i] by simp
    also have "\<dots> \<le> maxScore (exec E (step E g i) ins)"
      by (rule Cons.IH)
    finally show ?case by simp
  qed
  show ?thesis
    using upd run_frame_scores [of g E] handleKeyDown_scores [of E key g] step_scores [of g E i]
      ex [of ins] ex [of "replicate n Frame"]
    by (simp add: saveMaxScore_def updateScore_def resetScore_def init_fields restartGame_def
        run_exec)
qed

text \<open>
  C10. A frame that starts in GAME_OVER does not clear the canvas and does not sample the
  clock (\<open>gameTime\<close> keeps its value): its only calls are the two text draws, the
  game-over message and then the restart prompt, and no field of the controller changes.
\<close>

theorem game_over_frame:
  assumes "gameState g = GAME_OVER"
  shows "run_frame E g =
           g\<lparr>world := Canvas_drawText E (canvas g) ''Press Enter to restart''
                       (GAME_WIDTH E / 2 - 110) (GAME_HEIGHT E / 2 + 40) ''20px Roboto'' ''green''
                       (Canvas_drawText E (canvas g) ''Game Over!'' (GAME_WIDTH E / 2 - 100)
                          (GAME_HEIGHT E / 2) ''30px Roboto'' ''red'' (world g)),
             trace := trace g @
               [DrawText (canvas g) ''Game Over!'' (GAME_WIDTH E / 2 - 100) (GAME_HEIGHT E / 2)
                  ''30px Roboto'' ''red'',
                DrawText (canvas g) ''Press Enter to restart'' (GAME_WIDTH E / 2 - 110)
                  (GAME_HEIGHT E / 2 + 40) ''20px Roboto'' ''green'']\<rparr> \<and>
         gameTime (run_frame E g) = gameTime g \<and>
         clock_samples (drop (length (trace g)) (trace (run_frame E g))) = [] \<and>
         ClearCanvas (canvas g) \<notin> set (drop (length (trace g)) (trace (run_frame E g)))"
  using assms by (simp add: run_frame_game_over drawGameOver_eq)

theorem game_over_frame_witness:
  "gameState (exec demo (Game_new demo sim0) [Frame, Frame, Frame]) = GAME_OVER \<and>
   drop (length (trace (exec demo (Game_new demo sim0) [Frame, Frame, Frame])))
     (trace (run_frame demo (exec demo (Game_new demo sim0) [Frame, Frame, Frame]))) =
     [DrawText 1 ''Game Over!'' 300 300 ''30px Roboto'' ''red'',
      DrawText 1 ''Press Enter to restart'' 290 340 ''20px Roboto'' ''green''] \<and>
   gameTime (run_frame demo (exec demo (Game_new demo sim0) [Frame, Frame, Frame])) = 1048"
proof -
  have over: "gameState (exec demo (Game_new demo sim0) [Frame, Frame, Frame]) = GAME_OVER"
    unfolding demo_frame3 by simp
  have f: "canvas (exec demo (Game_new demo sim0) [Frame, Frame, Frame]) = 1"
    "gameTime (exec demo (Game_new demo sim0) [Frame, Frame, Frame]) = 1048"
    unfolding demo_frame3 by simp_all
  show ?thesis
    using game_over_frame [OF over, of demo] over
    unfolding demo_frame3 by (simp add: demo_sel)
qed

end
